theory Spec2Isabelle
  imports Main "HOL-Library.Word" "HOL-Library.Sublist" "HOL-Library.AList"
begin

unbundle bit_operations_syntax

section \<open>Bytes and little-endian integers\<close>

type_synonym byte = "8 word"
type_synonym uint16 = "16 word"
type_synonym uint32 = "32 word"

text \<open>
  \<open>binary.LittleEndian.PutUint16\<close> and \<open>Uint16\<close> (and the 32-bit pair) of Go's
  \<open>encoding/binary\<close>. The readers index their argument as Go does; every caller in the
  repository checks the length of the slice first.
\<close>

definition PutUint16 :: "uint16 \<Rightarrow> byte list" where
  "PutUint16 v = [ucast v, ucast (drop_bit 8 v)]"

definition Uint16 :: "byte list \<Rightarrow> uint16" where
  "Uint16 b = ucast (b ! 0) OR push_bit 8 (ucast (b ! 1))"

definition PutUint32 :: "uint32 \<Rightarrow> byte list" where
  "PutUint32 v = [ucast v, ucast (drop_bit 8 v), ucast (drop_bit 16 v), ucast (drop_bit 24 v)]"

definition Uint32 :: "byte list \<Rightarrow> uint32" where
  "Uint32 b = ucast (b ! 0) OR push_bit 8 (ucast (b ! 1))
                OR push_bit 16 (ucast (b ! 2)) OR push_bit 24 (ucast (b ! 3))"

section \<open>Errors\<close>

text \<open>
  The error values of the filesystem collaborator (\<open>littlefs.Error\<close>, an integer type
  whose \<open>Error()\<close> text is all the repository ever inspects).
\<close>

datatype lfs_error =
    errIO | errCorrupt | errNoDirEntry | errEntryExists | errEntryNotDir | errEntryIsDir
  | errDirNotEmpty | errBadFileNumber | errFileTooLarge | errInvalidParam | errNoSpace
  | errNoMemory | errNoAttr | errFileNameTooLong

text \<open>
  Every error value that can flow through the protocol, storage and config packages:
  the sentinels each package creates with \<open>errors.New\<close>, the two end-of-input errors of
  Go's \<open>io\<close> package, and a filesystem error.
\<close>

datatype error =
    ErrInvalidFrame | ErrCRCMismatch | ErrTimeout
  | ErrProfileNotFound | ErrFlashFull | ErrInvalidProfile | ErrVersionMismatch | ErrFilesystem
  | ErrInvalidSize
  | ErrNotADirectory
  | EOF | ErrUnexpectedEOF
  | LfsError lfs_error

section \<open>Frame codec (pkg/protocol/protocol.go)\<close>

definition SyncByte :: byte where "SyncByte = 0xAA"

definition CmdGetDeviceConfig :: byte where "CmdGetDeviceConfig = 0x01"
definition CmdSetDeviceConfig :: byte where "CmdSetDeviceConfig = 0x02"
definition CmdGetProfile :: byte where "CmdGetProfile = 0x03"
definition CmdSetProfile :: byte where "CmdSetProfile = 0x04"
definition CmdDeleteProfile :: byte where "CmdDeleteProfile = 0x05"
definition CmdListProfiles :: byte where "CmdListProfiles = 0x06"
definition CmdGetStorageStats :: byte where "CmdGetStorageStats = 0x07"
definition CmdPing :: byte where "CmdPing = 0x08"
definition CmdFactoryReset :: byte where "CmdFactoryReset = 0x09"
definition CmdGetVersion :: byte where "CmdGetVersion = 0x10"

definition StatusOK :: byte where "StatusOK = 0x00"
definition StatusError :: byte where "StatusError = 0x01"
definition StatusInvalidCmd :: byte where "StatusInvalidCmd = 0x02"
definition StatusInvalidData :: byte where "StatusInvalidData = 0x03"
definition StatusNotFound :: byte where "StatusNotFound = 0x04"
definition StatusNoSpace :: byte where "StatusNoSpace = 0x05"
definition StatusVersionMismatch :: byte where "StatusVersionMismatch = 0x06"
definition StatusCRCError :: byte where "StatusCRCError = 0x07"

lemmas Cmd_defs = CmdGetDeviceConfig_def CmdSetDeviceConfig_def CmdGetProfile_def
  CmdSetProfile_def CmdDeleteProfile_def CmdListProfiles_def CmdGetStorageStats_def
  CmdPing_def CmdFactoryReset_def CmdGetVersion_def

lemmas Status_defs = StatusOK_def StatusError_def StatusInvalidCmd_def StatusInvalidData_def
  StatusNotFound_def StatusNoSpace_def StatusVersionMismatch_def StatusCRCError_def

record Frame =
  Cmd :: byte
  Payload :: "byte list"

record Response =
  Status :: byte
  RPayload :: "byte list"

text \<open>
  \<open>calcCRC\<close>: CRC16-CCITT, polynomial 0x1021, initial value 0xFFFF. \<open>crc_shift\<close> is one
  pass of the inner loop, \<open>crc_byte\<close> one pass of the outer loop.
\<close>

definition crc_shift :: "uint16 \<Rightarrow> uint16" where
  "crc_shift crc = (if crc AND 0x8000 \<noteq> 0 then push_bit 1 crc XOR 0x1021 else push_bit 1 crc)"

definition crc_byte :: "uint16 \<Rightarrow> byte \<Rightarrow> uint16" where
  "crc_byte crc b = (crc_shift ^^ 8) (crc XOR push_bit 8 (ucast b))"

definition calcCRC :: "byte list \<Rightarrow> uint16" where
  "calcCRC data = foldl crc_byte 0xFFFF data"

text \<open>
  The reader of \<open>ReadFrame\<close> is a finite byte stream, as the \<open>bytes.Buffer\<close> of the tests:
  \<open>io.ReadFull\<close> takes exactly \<open>n\<close> bytes, or fails with \<open>EOF\<close> when nothing is left and
  with \<open>ErrUnexpectedEOF\<close> when the stream ends early. The second component is the
  stream that remains.
\<close>

definition ReadFull :: "nat \<Rightarrow> byte list \<Rightarrow> (error + byte list) \<times> byte list" where
  "ReadFull n r =
     (if n \<le> length r then (Inr (take n r), drop n r)
      else if r = [] then (Inl EOF, [])
      else (Inl ErrUnexpectedEOF, []))"

definition ReadFrame :: "byte list \<Rightarrow> (error + Frame) \<times> byte list" where
  "ReadFrame r =
     (case ReadFull 1 r of
        (Inl e, r1) \<Rightarrow> (Inl e, r1)
      | (Inr sync, r1) \<Rightarrow>
          if sync ! 0 \<noteq> SyncByte then (Inl ErrInvalidFrame, r1)
          else (case ReadFull 3 r1 of
             (Inl e, r2) \<Rightarrow> (Inl e, r2)
           | (Inr header, r2) \<Rightarrow>
               let cmd = header ! 0;
                   len = Uint16 (drop 1 header)
               in if len > 4096 then (Inl ErrInvalidFrame, r2)
                  else (case (if len > 0 then ReadFull (unat len) r2 else (Inr [], r2)) of
                     (Inl e, r3) \<Rightarrow> (Inl e, r3)
                   | (Inr payload, r3) \<Rightarrow>
                       (case ReadFull 2 r3 of
                          (Inl e, r4) \<Rightarrow> (Inl e, r4)
                        | (Inr crcBytes, r4) \<Rightarrow>
                            let receivedCRC = Uint16 crcBytes;
                                calculatedCRC = calcCRC (header @ payload)
                            in if receivedCRC \<noteq> calculatedCRC then (Inl ErrCRCMismatch, r4)
                               else (Inr \<lparr>Cmd = cmd, Payload = payload\<rparr>, r4)))))"

text \<open>
  \<open>WriteFrame\<close> and \<open>WriteResponse\<close> build one buffer and hand it to the writer in a single
  \<open>Write\<close>; the model returns that buffer (the functions' error is the writer's).
\<close>

definition WriteFrame :: "Frame \<Rightarrow> byte list" where
  "WriteFrame frame =
     (let payloadLen = (of_nat (length (Payload frame)) :: uint16);
          buf = [SyncByte] @ [Cmd frame] @ PutUint16 payloadLen @ Payload frame;
          crc = calcCRC (drop 1 buf)
      in buf @ PutUint16 crc)"

definition WriteResponse :: "Response \<Rightarrow> byte list" where
  "WriteResponse resp =
     (let payloadLen = (of_nat (length (RPayload resp)) :: uint16);
          buf = [SyncByte] @ [Status resp] @ PutUint16 payloadLen @ RPayload resp;
          crc = calcCRC (drop 1 buf)
      in buf @ PutUint16 crc)"

section \<open>Configuration records (package config)\<close>

definition CurrentVersion :: uint16 where "CurrentVersion = 1"

text \<open>
  \<open>BindingType\<close> and \<open>OutputType\<close> are named \<open>uint8\<close> types: the decoder casts any byte
  to them. Go's fixed-size arrays \<open>[16]byte\<close> and \<open>[32]KeyBinding\<close> are lists; the decoders
  below always build lists of these lengths.
\<close>

record KeyBinding =
  InputType :: byte
  InputID :: byte
  OutputType :: byte
  OutputValue :: uint16
  Modifiers :: byte
  BindFlags :: byte
  BindReserved :: byte

record Profile =
  Version :: uint16
  Flags :: uint32
  RGBColor :: uint32
  RGBPattern :: byte
  Reserved1 :: byte
  BindingCount :: byte
  Reserved2 :: byte
  Name :: "byte list"
  Bindings :: "KeyBinding list"

record DeviceConfig =
  DevVersion :: uint16
  DevFlags :: uint32
  ActiveProfile :: byte
  Brightness :: byte
  DebounceMs :: byte
  DevReserved1 :: byte
  DevReserved2 :: uint16

text \<open>The eight bytes of one binding, as the loop bodies of the two codecs write and read them.\<close>

definition marshal_binding :: "KeyBinding \<Rightarrow> byte list" where
  "marshal_binding b =
     [InputType b, InputID b, OutputType b] @ PutUint16 (OutputValue b)
       @ [Modifiers b, BindFlags b, BindReserved b]"

definition unmarshal_binding :: "byte list \<Rightarrow> KeyBinding" where
  "unmarshal_binding d =
     \<lparr>InputType = d ! 0, InputID = d ! 1, OutputType = d ! 2, OutputValue = Uint16 (drop 3 d),
      Modifiers = d ! 5, BindFlags = d ! 6, BindReserved = d ! 7\<rparr>"

text \<open>\<open>Profile.MarshalBinary\<close>: 30 header bytes, then the bindings at offsets \<open>30 + i * 8\<close>.\<close>

definition Profile_MarshalBinary :: "Profile \<Rightarrow> byte list" where
  "Profile_MarshalBinary p =
     PutUint16 (Version p) @ PutUint32 (Flags p) @ PutUint32 (RGBColor p)
       @ [RGBPattern p, Reserved1 p, BindingCount p, Reserved2 p]
       @ Name p
       @ concat (map marshal_binding (Bindings p))"

definition Profile_UnmarshalBinary :: "byte list \<Rightarrow> error + Profile" where
  "Profile_UnmarshalBinary data =
     (if length data < 286 then Inl ErrInvalidSize
      else Inr \<lparr>Version = Uint16 data,
                Flags = Uint32 (drop 2 data),
                RGBColor = Uint32 (drop 6 data),
                RGBPattern = data ! 10,
                Reserved1 = data ! 11,
                BindingCount = data ! 12,
                Reserved2 = data ! 13,
                Name = take 16 (drop 14 data),
                Bindings = map (\<lambda>i. unmarshal_binding (drop (30 + i * 8) data)) [0..<32]\<rparr>)"

definition DeviceConfig_MarshalBinary :: "DeviceConfig \<Rightarrow> byte list" where
  "DeviceConfig_MarshalBinary d =
     PutUint16 (DevVersion d) @ PutUint32 (DevFlags d)
       @ [ActiveProfile d, Brightness d, DebounceMs d, DevReserved1 d]
       @ PutUint16 (DevReserved2 d)"

definition DeviceConfig_UnmarshalBinary :: "byte list \<Rightarrow> error + DeviceConfig" where
  "DeviceConfig_UnmarshalBinary data =
     (if length data < 12 then Inl ErrInvalidSize
      else Inr \<lparr>DevVersion = Uint16 data,
                DevFlags = Uint32 (drop 2 data),
                ActiveProfile = data ! 6,
                Brightness = data ! 7,
                DebounceMs = data ! 8,
                DevReserved1 = data ! 9,
                DevReserved2 = Uint16 (drop 10 data)\<rparr>)"

section \<open>The filesystem collaborator\<close>

text \<open>
  The storage manager runs on a LittleFS volume, a library outside the repository. The
  model keeps what the manager can observe of it.

  \<^item> The volume is a list of entries, absolute path and node, in directory order; the
    root directory \<open>/\<close> always exists and has no entry.
  \<^item> Every call into the filesystem can fail for a reason of the medium (an I/O error, a
    full flash). The field \<open>faults\<close> schedules these: each call takes the head of the
    list, fails with that error when it is \<open>Some e\<close> and leaves the entries as they were,
    and runs normally when it is \<open>None\<close> or the list is used up.
  \<^item> Without a fault a call fails only for the reason LittleFS documents: a missing
    entry (\<open>errNoDirEntry\<close>), an entry that exists already, a directory that is not
    empty, a parent that is not a directory. \<open>Rename\<close> onto an existing entry of the same
    kind replaces it, as LittleFS does (\<open>atomicWrite\<close> removes the target first all the
    same, on the assumption that it would not). Renaming a directory that has entries
    below it is not modelled (it reports \<open>errDirNotEmpty\<close>); the manager renames files only.
  \<^item> \<open>File.Write\<close> is modelled on a buffer that is not empty: the library takes the
    address of the first byte of the buffer, so it panics on an empty one. The manager
    writes records of 12 and 286 bytes only, and a statement about \<open>atomicWrite\<close> on
    arbitrary data assumes the data non-empty.
  \<^item> A file is opened either read-only (\<open>Open\<close>) or with
    \<open>O_WRONLY|O_CREATE|O_TRUNC\<close> (\<open>OpenFile\<close>), the only flags the manager uses. A handle
    is the path it was opened on; \<open>Open\<close> on a directory gives a directory handle.
\<close>

datatype node = File "byte list" | Dir

datatype handle = FileHandle string | DirHandle string

record Manager =
  tree :: "(string \<times> node) list"
  faults :: "lfs_error option list"
  blockDevSize :: int

definition pop_fault :: "Manager \<Rightarrow> lfs_error option \<times> Manager" where
  "pop_fault m = (case faults m of [] \<Rightarrow> (None, m) | f # fs \<Rightarrow> (f, m\<lparr>faults := fs\<rparr>))"

text \<open>\<open>path.Dir\<close> and \<open>path.Base\<close> on the clean absolute paths the manager builds.\<close>

definition path_Dir :: "string \<Rightarrow> string" where
  "path_Dir p =
     (let d = rev (drop 1 (dropWhile (\<lambda>c. c \<noteq> CHR ''/'') (rev p)))
      in if d = [] then ''/'' else d)"

definition path_Base :: "string \<Rightarrow> string" where
  "path_Base p = rev (takeWhile (\<lambda>c. c \<noteq> CHR ''/'') (rev p))"

definition is_dir :: "(string \<times> node) list \<Rightarrow> string \<Rightarrow> bool" where
  "is_dir t p = (p = ''/'' \<or> map_of t p = Some Dir)"

definition has_children :: "(string \<times> node) list \<Rightarrow> string \<Rightarrow> bool" where
  "has_children t d = list_ex (\<lambda>e. path_Dir (fst e) = d) t"

definition dir_entries :: "(string \<times> node) list \<Rightarrow> string \<Rightarrow> string list" where
  "dir_entries t d = map (\<lambda>e. path_Base (fst e)) (filter (\<lambda>e. path_Dir (fst e) = d) t)"

definition fs_Open :: "string \<Rightarrow> Manager \<Rightarrow> (error + handle) \<times> Manager" where
  "fs_Open path m =
     (case pop_fault m of
        (Some e, m') \<Rightarrow> (Inl (LfsError e), m')
      | (None, m') \<Rightarrow>
          if is_dir (tree m') path then (Inr (DirHandle path), m')
          else (case map_of (tree m') path of
                  Some _ \<Rightarrow> (Inr (FileHandle path), m')
                | None \<Rightarrow> (Inl (LfsError errNoDirEntry), m')))"

definition fs_OpenFile :: "string \<Rightarrow> Manager \<Rightarrow> (error + handle) \<times> Manager" where
  "fs_OpenFile path m =
     (case pop_fault m of
        (Some e, m') \<Rightarrow> (Inl (LfsError e), m')
      | (None, m') \<Rightarrow>
          if is_dir (tree m') path then (Inr (DirHandle path), m')
          else (case map_of (tree m') path of
                  Some _ \<Rightarrow> (Inr (FileHandle path), m'\<lparr>tree := AList.update path (File []) (tree m')\<rparr>)
                | None \<Rightarrow>
                    if is_dir (tree m') (path_Dir path)
                    then (Inr (FileHandle path), m'\<lparr>tree := AList.update path (File []) (tree m')\<rparr>)
                    else if map_of (tree m') (path_Dir path) = None
                    then (Inl (LfsError errNoDirEntry), m')
                    else (Inl (LfsError errEntryNotDir), m')))"

definition file_IsDir :: "handle \<Rightarrow> bool" where
  "file_IsDir h = (case h of DirHandle _ \<Rightarrow> True | FileHandle _ \<Rightarrow> False)"

text \<open>
  \<open>File.Read\<close> into a buffer of \<open>n\<close> bytes, on a handle just opened: the bytes read, at
  most \<open>n\<close>; \<open>io.EOF\<close> on an empty file.
\<close>

definition file_Read :: "handle \<Rightarrow> nat \<Rightarrow> Manager \<Rightarrow> (error + byte list) \<times> Manager" where
  "file_Read h n m =
     (case pop_fault m of
        (Some e, m') \<Rightarrow> (Inl (LfsError e), m')
      | (None, m') \<Rightarrow>
          (case h of
             DirHandle _ \<Rightarrow> (Inl (LfsError errEntryIsDir), m')
           | FileHandle p \<Rightarrow>
               (case map_of (tree m') p of
                  Some (File c) \<Rightarrow> if c = [] then (Inl EOF, m') else (Inr (take n c), m')
                | _ \<Rightarrow> (Inl (LfsError errBadFileNumber), m'))))"

text \<open>\<open>File.Write\<close> of a non-empty buffer, appending at the position of the handle.\<close>

definition file_Write :: "handle \<Rightarrow> byte list \<Rightarrow> Manager \<Rightarrow> (error + nat) \<times> Manager" where
  "file_Write h data m =
     (case pop_fault m of
        (Some e, m') \<Rightarrow> (Inl (LfsError e), m')
      | (None, m') \<Rightarrow>
          (case h of
             DirHandle _ \<Rightarrow> (Inl (LfsError errEntryIsDir), m')
           | FileHandle p \<Rightarrow>
               (case map_of (tree m') p of
                  Some (File c) \<Rightarrow>
                    (Inr (length data), m'\<lparr>tree := AList.update p (File (c @ data)) (tree m')\<rparr>)
                | _ \<Rightarrow> (Inl (LfsError errBadFileNumber), m'))))"

definition file_Sync :: "handle \<Rightarrow> Manager \<Rightarrow> error option \<times> Manager" where
  "file_Sync h m = (case pop_fault m of (f, m') \<Rightarrow> (map_option LfsError f, m'))"

definition file_Close :: "handle \<Rightarrow> Manager \<Rightarrow> error option \<times> Manager" where
  "file_Close h m = (case pop_fault m of (f, m') \<Rightarrow> (map_option LfsError f, m'))"

definition file_Readdir :: "handle \<Rightarrow> Manager \<Rightarrow> (error + string list) \<times> Manager" where
  "file_Readdir h m =
     (case pop_fault m of
        (Some e, m') \<Rightarrow> (Inl (LfsError e), m')
      | (None, m') \<Rightarrow>
          (case h of
             DirHandle d \<Rightarrow> (Inr (dir_entries (tree m') d), m')
           | FileHandle _ \<Rightarrow> (Inl (LfsError errEntryNotDir), m')))"

definition fs_Remove :: "string \<Rightarrow> Manager \<Rightarrow> error option \<times> Manager" where
  "fs_Remove path m =
     (case pop_fault m of
        (Some e, m') \<Rightarrow> (Some (LfsError e), m')
      | (None, m') \<Rightarrow>
          (case map_of (tree m') path of
             None \<Rightarrow> (Some (LfsError errNoDirEntry), m')
           | Some n \<Rightarrow>
               if n = Dir \<and> has_children (tree m') path
               then (Some (LfsError errDirNotEmpty), m')
               else (None, m'\<lparr>tree := AList.delete path (tree m')\<rparr>)))"

definition fs_Rename :: "string \<Rightarrow> string \<Rightarrow> Manager \<Rightarrow> error option \<times> Manager" where
  "fs_Rename old new m =
     (case pop_fault m of
        (Some e, m') \<Rightarrow> (Some (LfsError e), m')
      | (None, m') \<Rightarrow>
          (case map_of (tree m') old of
             None \<Rightarrow> (Some (LfsError errNoDirEntry), m')
           | Some n \<Rightarrow>
               if new = ''/'' then (Some (LfsError errInvalidParam), m')
               else if n = Dir \<and> has_children (tree m') old
               then (Some (LfsError errDirNotEmpty), m')
               else (case map_of (tree m') new of
                  None \<Rightarrow>
                    if \<not> is_dir (tree m') (path_Dir new)
                    then (Some (LfsError errNoDirEntry), m')
                    else (None, m'\<lparr>tree := AList.update new n (AList.delete old (tree m'))\<rparr>)
                | Some n' \<Rightarrow>
                    if n' = Dir \<and> n \<noteq> Dir then (Some (LfsError errEntryIsDir), m')
                    else if n' \<noteq> Dir \<and> n = Dir then (Some (LfsError errEntryNotDir), m')
                    else if n' = Dir \<and> has_children (tree m') new
                    then (Some (LfsError errDirNotEmpty), m')
                    else (None, m'\<lparr>tree := AList.update new n (AList.delete old (tree m'))\<rparr>))))"

definition fs_Mkdir :: "string \<Rightarrow> Manager \<Rightarrow> error option \<times> Manager" where
  "fs_Mkdir path m =
     (case pop_fault m of
        (Some e, m') \<Rightarrow> (Some (LfsError e), m')
      | (None, m') \<Rightarrow>
          if path = ''/'' \<or> map_of (tree m') path \<noteq> None
          then (Some (LfsError errEntryExists), m')
          else if is_dir (tree m') (path_Dir path)
          then (None, m'\<lparr>tree := AList.update path Dir (tree m')\<rparr>)
          else if map_of (tree m') (path_Dir path) = None
          then (Some (LfsError errNoDirEntry), m')
          else (Some (LfsError errEntryNotDir), m'))"

section \<open>What the manager inspects of an error\<close>

fun lfs_Error_text :: "lfs_error \<Rightarrow> string" where
  "lfs_Error_text errIO = ''Error during device operation''"
| "lfs_Error_text errCorrupt = ''Corrupted''"
| "lfs_Error_text errNoDirEntry = ''No directory entry''"
| "lfs_Error_text errEntryExists = ''Entry already exists''"
| "lfs_Error_text errEntryNotDir = ''Entry is not a dir''"
| "lfs_Error_text errEntryIsDir = ''Entry is a dir''"
| "lfs_Error_text errDirNotEmpty = ''Dir is not empty''"
| "lfs_Error_text errBadFileNumber = ''Bad file number''"
| "lfs_Error_text errFileTooLarge = ''File too large''"
| "lfs_Error_text errInvalidParam = ''Invalid parameter''"
| "lfs_Error_text errNoSpace = ''No space left on device''"
| "lfs_Error_text errNoMemory = ''No more memory available''"
| "lfs_Error_text errNoAttr = ''No data/attr available''"
| "lfs_Error_text errFileNameTooLong = ''File name too long''"

fun Error_text :: "error \<Rightarrow> string" where
  "Error_text ErrInvalidFrame = ''invalid frame''"
| "Error_text ErrCRCMismatch = ''CRC mismatch''"
| "Error_text ErrTimeout = ''timeout''"
| "Error_text ErrProfileNotFound = ''profile not found''"
| "Error_text ErrFlashFull = ''insufficient flash space''"
| "Error_text ErrInvalidProfile = ''invalid profile data''"
| "Error_text ErrVersionMismatch = ''config version mismatch''"
| "Error_text ErrFilesystem = ''filesystem error''"
| "Error_text ErrInvalidSize = ''invalid config size''"
| "Error_text ErrNotADirectory = ''not a directory''"
| "Error_text EOF = ''EOF''"
| "Error_text ErrUnexpectedEOF = ''unexpected EOF''"
| "Error_text (LfsError e) = lfs_Error_text e"

text \<open>
  \<open>os.IsNotExist\<close> and \<open>os.IsExist\<close> recognise the errors of Go's \<open>os\<close> and \<open>syscall\<close>
  packages. None of the values of \<open>error\<close> is one: \<open>littlefs.Error\<close> is an integer type of
  its own, which is why the manager also looks at the text ("LittleFS errors don't always
  match os.IsExist, so we check the message too").
\<close>

definition os_IsNotExist :: "error \<Rightarrow> bool" where
  "os_IsNotExist e = False"

definition os_IsExist :: "error \<Rightarrow> bool" where
  "os_IsExist e = False"

fun strings_Contains :: "string \<Rightarrow> string \<Rightarrow> bool" where
  "strings_Contains [] substr = (substr = [])"
| "strings_Contains (c # s) substr = (prefix substr (c # s) \<or> strings_Contains s substr)"

definition strings_HasSuffix :: "string \<Rightarrow> string \<Rightarrow> bool" where
  "strings_HasSuffix s suf = suffix suf s"

definition strings_TrimPrefix :: "string \<Rightarrow> string \<Rightarrow> string" where
  "strings_TrimPrefix s pre = (if prefix pre s then drop (length pre) s else s)"

definition strings_TrimSuffix :: "string \<Rightarrow> string \<Rightarrow> string" where
  "strings_TrimSuffix s suf = (if suffix suf s then take (length s - length suf) s else s)"

text \<open>\<open>strconv.Itoa\<close> on a non-negative number.\<close>

fun Itoa :: "nat \<Rightarrow> string" where
  "Itoa n = (if n < 10 then [char_of (48 + n)] else Itoa (n div 10) @ [char_of (48 + n mod 10)])"

declare Itoa.simps [simp del]

text \<open>
  \<open>strconv.ParseUint(s, 10, 8)\<close>: a non-empty string of decimal digits whose value is at
  most 255; anything else is a syntax or range error (\<open>None\<close>).
\<close>

definition is_digit :: "char \<Rightarrow> bool" where
  "is_digit c = (48 \<le> (of_char c :: nat) \<and> (of_char c :: nat) \<le> 57)"

fun parse_digits :: "nat \<Rightarrow> string \<Rightarrow> nat option" where
  "parse_digits acc [] = Some acc"
| "parse_digits acc (c # cs) =
     (if is_digit c then parse_digits (acc * 10 + (of_char c - 48)) cs else None)"

definition ParseUint8 :: "string \<Rightarrow> nat option" where
  "ParseUint8 s =
     (if s = [] then None
      else (case parse_digits 0 s of
              None \<Rightarrow> None
            | Some v \<Rightarrow> if v \<le> 255 then Some v else None))"

section \<open>Storage manager (package storage)\<close>

definition configDir :: string where "configDir = ''/config''"
definition profilesDir :: string where "profilesDir = ''/config/profiles''"
definition deviceFile :: string where "deviceFile = ''/config/device.bin''"
definition tempSuffix :: string where "tempSuffix = ''.tmp''"
definition profilePrefix :: string where "profilePrefix = []"
definition profileSuffix :: string where "profileSuffix = ''.bin''"

text \<open>\<open>path.Join\<close> of a clean directory path and a file name.\<close>

definition path_Join :: "string \<Rightarrow> string \<Rightarrow> string" where
  "path_Join d name = d @ ''/'' @ name"

definition profilePath :: "byte \<Rightarrow> string" where
  "profilePath slot = path_Join profilesDir (Itoa (unat slot) @ profileSuffix)"

definition isExist :: "error option \<Rightarrow> bool" where
  "isExist err =
     (case err of
        None \<Rightarrow> False
      | Some e \<Rightarrow> if os_IsExist e then True else strings_Contains (Error_text e) ''already exists'')"

definition ensureDirs :: "Manager \<Rightarrow> error option \<times> Manager" where
  "ensureDirs m =
     (case fs_Mkdir configDir m of
        (err1, m1) \<Rightarrow>
          if err1 \<noteq> None \<and> \<not> isExist err1 then (err1, m1)
          else (case fs_Mkdir profilesDir m1 of
                  (err2, m2) \<Rightarrow>
                    if err2 \<noteq> None \<and> \<not> isExist err2 then (err2, m2) else (None, m2)))"

text \<open>
  \<open>readDir\<close>. The deferred \<open>f.Close()\<close> runs when the function returns, after \<open>Readdir\<close>;
  its result is dropped.
\<close>

definition readDir :: "string \<Rightarrow> Manager \<Rightarrow> (error + string list) \<times> Manager" where
  "readDir dirPath m =
     (case fs_Open dirPath m of
        (Inl e, m1) \<Rightarrow> (Inl e, m1)
      | (Inr f, m1) \<Rightarrow>
          if \<not> file_IsDir f then (Inl ErrNotADirectory, snd (file_Close f m1))
          else (case file_Readdir f m1 of (r, m2) \<Rightarrow> (r, snd (file_Close f m2))))"

definition LoadDevice :: "Manager \<Rightarrow> (error + DeviceConfig) \<times> Manager" where
  "LoadDevice m =
     (case fs_Open deviceFile m of
        (Inl e, m1) \<Rightarrow> (Inl e, m1)
      | (Inr f, m1) \<Rightarrow>
          (case file_Read f 12 m1 of
             (Inl e, m2) \<Rightarrow> (Inl e, snd (file_Close f m2))
           | (Inr buf, m2) \<Rightarrow>
               if length buf \<noteq> 12 then (Inl ErrInvalidProfile, snd (file_Close f m2))
               else (DeviceConfig_UnmarshalBinary buf, snd (file_Close f m2))))"

text \<open>
  \<open>atomicWrite\<close>. Each return of the source is labelled with the step it stops at, so that
  a statement can say which step failed; \<open>atomicWrite\<close> is the function without the label.
  The results of the \<open>Remove\<close> calls and of \<open>Close\<close> on the failure paths are dropped, as
  in the source. The file handle of LittleFS has \<open>Sync\<close>, so the type assertion succeeds.
\<close>

datatype write_step = StepCreate | StepWrite | StepSync | StepClose | StepRename | StepDone

definition atomicWrite_traced ::
    "string \<Rightarrow> byte list \<Rightarrow> Manager \<Rightarrow> write_step \<times> error option \<times> Manager" where
  "atomicWrite_traced filepath data m =
     (let tempPath = filepath @ tempSuffix;
          m0 = snd (fs_Remove tempPath m)
      in case fs_OpenFile tempPath m0 of
           (Inl e, m1) \<Rightarrow> (StepCreate, Some e, m1)
         | (Inr f, m1) \<Rightarrow>
             (case file_Write f data m1 of
                (Inl e, m2) \<Rightarrow>
                  (StepWrite, Some e, snd (fs_Remove tempPath (snd (file_Close f m2))))
              | (Inr _, m2) \<Rightarrow>
                  (case file_Sync f m2 of
                     (Some e, m3) \<Rightarrow>
                       (StepSync, Some e, snd (fs_Remove tempPath (snd (file_Close f m3))))
                   | (None, m3) \<Rightarrow>
                       (case file_Close f m3 of
                          (Some e, m4) \<Rightarrow> (StepClose, Some e, snd (fs_Remove tempPath m4))
                        | (None, m4) \<Rightarrow>
                            (case fs_Rename tempPath filepath (snd (fs_Remove filepath m4)) of
                               (Some e, m6) \<Rightarrow>
                                 (StepRename, Some e, snd (fs_Remove tempPath m6))
                             | (None, m6) \<Rightarrow> (StepDone, None, m6))))))"

definition atomicWrite :: "string \<Rightarrow> byte list \<Rightarrow> Manager \<Rightarrow> error option \<times> Manager" where
  "atomicWrite filepath data m = snd (atomicWrite_traced filepath data m)"

text \<open>
  \<open>SaveDevice\<close> and \<open>SaveProfile\<close> take a pointer and assign to its \<open>Version\<close> field: the
  second component of the result is the caller's struct after the call.
\<close>

definition SaveDevice :: "DeviceConfig \<Rightarrow> Manager \<Rightarrow> error option \<times> DeviceConfig \<times> Manager" where
  "SaveDevice cfg m =
     (case ensureDirs m of
        (Some e, m1) \<Rightarrow> (Some e, cfg, m1)
      | (None, m1) \<Rightarrow>
          let cfg' = cfg\<lparr>DevVersion := CurrentVersion\<rparr>;
              data = DeviceConfig_MarshalBinary cfg'
          in (case atomicWrite deviceFile data m1 of (r, m2) \<Rightarrow> (r, cfg', m2)))"

definition LoadProfile :: "byte \<Rightarrow> Manager \<Rightarrow> (error + Profile) \<times> Manager" where
  "LoadProfile slot m =
     (case fs_Open (profilePath slot) m of
        (Inl e, m1) \<Rightarrow>
          if os_IsNotExist e then (Inl ErrProfileNotFound, m1)
          else if strings_Contains (Error_text e) ''No directory entry''
          then (Inl ErrProfileNotFound, m1)
          else (Inl e, m1)
      | (Inr f, m1) \<Rightarrow>
          (case file_Read f 286 m1 of
             (Inl e, m2) \<Rightarrow> (Inl e, snd (file_Close f m2))
           | (Inr buf, m2) \<Rightarrow>
               if length buf \<noteq> 286 then (Inl ErrInvalidProfile, snd (file_Close f m2))
               else (Profile_UnmarshalBinary buf, snd (file_Close f m2))))"

definition SaveProfile :: "byte \<Rightarrow> Profile \<Rightarrow> Manager \<Rightarrow> error option \<times> Profile \<times> Manager" where
  "SaveProfile slot profile m =
     (case ensureDirs m of
        (Some e, m1) \<Rightarrow> (Some e, profile, m1)
      | (None, m1) \<Rightarrow>
          let profile' = profile\<lparr>Version := CurrentVersion\<rparr>;
              data = Profile_MarshalBinary profile'
          in (case atomicWrite (profilePath slot) data m1 of (r, m2) \<Rightarrow> (r, profile', m2)))"

definition DeleteProfile :: "byte \<Rightarrow> Manager \<Rightarrow> error option \<times> Manager" where
  "DeleteProfile slot m = fs_Remove (profilePath slot) m"

definition ProfileExists :: "byte \<Rightarrow> Manager \<Rightarrow> bool \<times> Manager" where
  "ProfileExists slot m =
     (case fs_Open (profilePath slot) m of
        (Inl e, m1) \<Rightarrow> (False, m1)
      | (Inr f, m1) \<Rightarrow> (True, snd (file_Close f m1)))"

text \<open>The loop of \<open>ListProfiles\<close> over the directory entries, appending each slot it parses.\<close>

fun collect_slots :: "string list \<Rightarrow> byte list" where
  "collect_slots [] = []"
| "collect_slots (name # entries) =
     (if \<not> strings_HasSuffix name profileSuffix then collect_slots entries
      else if strings_HasSuffix name tempSuffix then collect_slots entries
      else (case ParseUint8 (strings_TrimSuffix (strings_TrimPrefix name profilePrefix) profileSuffix) of
              Some slot \<Rightarrow> of_nat slot # collect_slots entries
            | None \<Rightarrow> collect_slots entries))"

definition ListProfiles :: "Manager \<Rightarrow> (error + byte list) \<times> Manager" where
  "ListProfiles m =
     (case readDir profilesDir m of
        (Inl e, m1) \<Rightarrow> if os_IsNotExist e then (Inr [], m1) else (Inl e, m1)
      | (Inr entries, m1) \<Rightarrow> (Inr (collect_slots entries), m1))"

record Stats =
  TotalSpace :: int
  UsedSpace :: int
  FreeSpace :: int
  ProfileCount :: nat

definition GetStats :: "Manager \<Rightarrow> (error + Stats) \<times> Manager" where
  "GetStats m =
     (case ListProfiles m of
        (r, m1) \<Rightarrow>
          (case (case r of
                   Inl e \<Rightarrow> if strings_Contains (Error_text e) ''No directory entry''
                           then Inr [] else Inl e
                 | Inr profiles \<Rightarrow> Inr profiles) of
             Inl e \<Rightarrow> (Inl e, m1)
           | Inr profiles \<Rightarrow>
               let used = int (length profiles * 320 + 100);
                   total = blockDevSize m1
               in (Inr \<lparr>TotalSpace = total, UsedSpace = used, FreeSpace = total - used,
                        ProfileCount = length profiles\<rparr>, m1)))"

definition wipeAll :: "Manager \<Rightarrow> error option \<times> Manager" where
  "wipeAll m =
     (case ListProfiles m of
        (r, m1) \<Rightarrow>
          let m2 = (case r of
                      Inr slots \<Rightarrow> fold (\<lambda>slot m'. snd (DeleteProfile slot m')) slots m1
                    | Inl _ \<Rightarrow> m1)
          in (None, snd (fs_Remove deviceFile m2)))"

definition ForceWipe :: "Manager \<Rightarrow> error option \<times> Manager" where
  "ForceWipe m = wipeAll m"

section \<open>Command dispatcher (pkg/protocol/protocol.go)\<close>

definition reply :: "byte \<Rightarrow> Response" where
  "reply st = \<lparr>Status = st, RPayload = []\<rparr>"

definition handlePing :: "byte list \<Rightarrow> Manager \<Rightarrow> Response \<times> Manager" where
  "handlePing payload m = (\<lparr>Status = StatusOK, RPayload = payload\<rparr>, m)"

definition handleGetDeviceConfig :: "Manager \<Rightarrow> Response \<times> Manager" where
  "handleGetDeviceConfig m =
     (case LoadDevice m of
        (Inl err, m1) \<Rightarrow>
          if err = ErrProfileNotFound then (reply StatusNotFound, m1) else (reply StatusError, m1)
      | (Inr cfg, m1) \<Rightarrow> (\<lparr>Status = StatusOK, RPayload = DeviceConfig_MarshalBinary cfg\<rparr>, m1))"

definition handleSetDeviceConfig :: "byte list \<Rightarrow> Manager \<Rightarrow> Response \<times> Manager" where
  "handleSetDeviceConfig payload m =
     (if length payload \<noteq> 12 then (reply StatusInvalidData, m)
      else (case DeviceConfig_UnmarshalBinary payload of
              Inl err \<Rightarrow> (reply StatusInvalidData, m)
            | Inr cfg \<Rightarrow>
                (case SaveDevice cfg m of
                   (Some err, _, m1) \<Rightarrow>
                     if err = ErrFlashFull then (reply StatusNoSpace, m1) else (reply StatusError, m1)
                 | (None, _, m1) \<Rightarrow> (reply StatusOK, m1))))"

definition handleGetProfile :: "byte list \<Rightarrow> Manager \<Rightarrow> Response \<times> Manager" where
  "handleGetProfile payload m =
     (if length payload \<noteq> 1 then (reply StatusInvalidData, m)
      else (case LoadProfile (payload ! 0) m of
              (Inl err, m1) \<Rightarrow>
                if err = ErrProfileNotFound then (reply StatusNotFound, m1)
                else (reply StatusError, m1)
            | (Inr profile, m1) \<Rightarrow>
                (\<lparr>Status = StatusOK, RPayload = Profile_MarshalBinary profile\<rparr>, m1)))"

definition handleSetProfile :: "byte list \<Rightarrow> Manager \<Rightarrow> Response \<times> Manager" where
  "handleSetProfile payload m =
     (if length payload \<noteq> 287 then (reply StatusInvalidData, m)
      else (case Profile_UnmarshalBinary (drop 1 payload) of
              Inl err \<Rightarrow> (reply StatusInvalidData, m)
            | Inr profile \<Rightarrow>
                if Version profile \<noteq> CurrentVersion then (reply StatusVersionMismatch, m)
                else (case SaveProfile (payload ! 0) profile m of
                        (Some err, _, m1) \<Rightarrow>
                          if err = ErrFlashFull then (reply StatusNoSpace, m1)
                          else (reply StatusError, m1)
                      | (None, _, m1) \<Rightarrow> (reply StatusOK, m1))))"

definition handleDeleteProfile :: "byte list \<Rightarrow> Manager \<Rightarrow> Response \<times> Manager" where
  "handleDeleteProfile payload m =
     (if length payload \<noteq> 1 then (reply StatusInvalidData, m)
      else (case DeleteProfile (payload ! 0) m of
              (Some err, m1) \<Rightarrow> (reply StatusError, m1)
            | (None, m1) \<Rightarrow> (reply StatusOK, m1)))"

definition handleListProfiles :: "Manager \<Rightarrow> Response \<times> Manager" where
  "handleListProfiles m =
     (case ListProfiles m of
        (Inl err, m1) \<Rightarrow> (reply StatusError, m1)
      | (Inr slots, m1) \<Rightarrow>
          (\<lparr>Status = StatusOK, RPayload = (of_nat (length slots) :: byte) # slots\<rparr>, m1))"

definition handleGetStorageStats :: "Manager \<Rightarrow> Response \<times> Manager" where
  "handleGetStorageStats m =
     (case GetStats m of
        (Inl err, m1) \<Rightarrow> (reply StatusError, m1)
      | (Inr stats, m1) \<Rightarrow>
          (\<lparr>Status = StatusOK,
            RPayload = PutUint32 (of_int (TotalSpace stats)) @ PutUint32 (of_int (UsedSpace stats))
                         @ PutUint32 (of_int (FreeSpace stats))
                         @ [of_nat (ProfileCount stats)]\<rparr>, m1))"

definition handleFactoryReset :: "Manager \<Rightarrow> Response \<times> Manager" where
  "handleFactoryReset m =
     (case ForceWipe m of
        (Some err, m1) \<Rightarrow> (reply StatusError, m1)
      | (None, m1) \<Rightarrow> (reply StatusOK, m1))"

definition handleGetVersion :: "Manager \<Rightarrow> Response \<times> Manager" where
  "handleGetVersion m = (\<lparr>Status = StatusOK, RPayload = [0, 1] @ PutUint16 CurrentVersion\<rparr>, m)"

text \<open>\<open>Handler.Handle\<close>: the switch on the command byte, in the order of the source.\<close>

definition Handle :: "Frame \<Rightarrow> Manager \<Rightarrow> Response \<times> Manager" where
  "Handle frame m =
     (if Cmd frame = CmdPing then handlePing (Payload frame) m
      else if Cmd frame = CmdGetDeviceConfig then handleGetDeviceConfig m
      else if Cmd frame = CmdSetDeviceConfig then handleSetDeviceConfig (Payload frame) m
      else if Cmd frame = CmdGetProfile then handleGetProfile (Payload frame) m
      else if Cmd frame = CmdSetProfile then handleSetProfile (Payload frame) m
      else if Cmd frame = CmdDeleteProfile then handleDeleteProfile (Payload frame) m
      else if Cmd frame = CmdListProfiles then handleListProfiles m
      else if Cmd frame = CmdGetStorageStats then handleGetStorageStats m
      else if Cmd frame = CmdFactoryReset then handleFactoryReset m
      else if Cmd frame = CmdGetVersion then handleGetVersion m
      else (reply StatusInvalidCmd, m))"

text \<open>
  One pass of the loop of \<open>Serial.Handle\<close>: read a frame from the stream; on an error go
  on with the next pass and write nothing; otherwise hand the frame to the dispatcher and
  write its response. The result is the buffer written (if any), the stream that remains
  and the manager.
\<close>

definition Serial_Handle_step :: "byte list \<Rightarrow> Manager \<Rightarrow> byte list option \<times> byte list \<times> Manager" where
  "Serial_Handle_step r m =
     (case ReadFrame r of
        (Inl err, r') \<Rightarrow> (None, r', m)
      | (Inr frame, r') \<Rightarrow>
          (case Handle frame m of (resp, m') \<Rightarrow> (Some (WriteResponse resp), r', m')))"

section \<open>Faults, runs and sample values used in the statements\<close>

text \<open>The number of faults still scheduled.\<close>

definition fault_count :: "Manager \<Rightarrow> nat" where
  "fault_count m = length (filter (\<lambda>f. f \<noteq> None) (faults m))"

text \<open>
  A freshly formatted volume, as \<open>storage.New\<close> leaves it (the test device has 64 blocks
  of 4096 bytes), and records to save.
\<close>

definition fresh_store :: Manager where
  "fresh_store = \<lparr>tree = [], faults = [], blockDevSize = 262144\<rparr>"

definition sample_binding :: KeyBinding where
  "sample_binding = \<lparr>InputType = 0, InputID = 0, OutputType = 1, OutputValue = 0x04,
     Modifiers = 0, BindFlags = 0, BindReserved = 0\<rparr>"

definition sample_profile :: Profile where
  "sample_profile = \<lparr>Version = 7, Flags = 0xDEADBEEF, RGBColor = 0xFF5733, RGBPattern = 2,
     Reserved1 = 0, BindingCount = 1, Reserved2 = 0, Name = replicate 16 0x41,
     Bindings = replicate 32 sample_binding\<rparr>"

definition sample_device :: DeviceConfig where
  "sample_device = \<lparr>DevVersion = 7, DevFlags = 0xDEADBEEF, ActiveProfile = 3, Brightness = 200,
     DebounceMs = 10, DevReserved1 = 0, DevReserved2 = 0\<rparr>"

text \<open>A volume that holds a profile in slot 5, with the medium about to fail on the third call.\<close>

definition sample_store :: Manager where
  "sample_store =
     \<lparr>tree = [(''/config'', Dir), (''/config/profiles'', Dir),
              (''/config/profiles/5.bin'', File [1, 2, 3])],
      faults = [None, None, Some errNoSpace], blockDevSize = 262144\<rparr>"

text \<open>
  The bytes of a profile of the current version and of a device record that still carries
  version 7.
\<close>

definition sample_profile_bytes :: "byte list" where
  "sample_profile_bytes = 1 # 0 # replicate 284 0x41"

definition sample_device_bytes :: "byte list" where
  "sample_device_bytes = [7, 0, 0xEF, 0xBE, 0xAD, 0xDE, 3, 200, 10, 0, 0, 0]"

text \<open>
  A run of save and delete operations, each with the fault schedule the medium follows
  during it; the result is the volume after the run, or \<open>None\<close> when one of the
  operations returns an error (the run is then not a run of successful operations).
\<close>

datatype store_op = OpSave byte Profile | OpDelete byte

fun run_ops :: "(store_op \<times> lfs_error option list) list \<Rightarrow> Manager \<Rightarrow> Manager option" where
  "run_ops [] m = Some m"
| "run_ops ((OpSave slot p, fl) # ops) m =
     (case SaveProfile slot p (m\<lparr>faults := fl\<rparr>) of
        (None, _, m') \<Rightarrow> run_ops ops m'
      | (Some e, _, _) \<Rightarrow> None)"
| "run_ops ((OpDelete slot, fl) # ops) m =
     (case DeleteProfile slot (m\<lparr>faults := fl\<rparr>) of
        (None, m') \<Rightarrow> run_ops ops m'
      | (Some e, _) \<Rightarrow> None)"

text \<open>Saving a profile into every slot from 0 to \<open>n - 1\<close>, with no fault of the medium.\<close>

definition fill_slots :: "nat \<Rightarrow> (store_op \<times> lfs_error option list) list" where
  "fill_slots n = map (\<lambda>k. (OpSave (of_nat k) sample_profile, [])) [0..<n]"

text \<open>
  What a volume holds when only profiles have been saved and deleted: the two directories
  and profile files, each path once, and nothing at all before the profiles directory
  exists.
\<close>

definition allowed_entry :: "string \<times> node \<Rightarrow> bool" where
  "allowed_entry e =
     (e = (configDir, Dir) \<or> e = (profilesDir, Dir) \<or> (\<exists>k c. e = (profilePath k, File c)))"

definition store_inv :: "(string \<times> node) list \<Rightarrow> bool" where
  "store_inv t =
     (distinct (map fst t) \<and> list_all allowed_entry t
      \<and> (t = [] \<or> map_of t profilesDir = Some Dir))"

text \<open>The volume after all 256 slots have been filled, and a short run of three operations.\<close>

definition full_store :: Manager where
  "full_store = (the (run_ops (fill_slots 256) fresh_store))\<lparr>faults := []\<rparr>"

definition sample_ops :: "(store_op \<times> lfs_error option list) list" where
  "sample_ops =
     [(OpSave 5 sample_profile, []), (OpSave 17 sample_profile, [None, None]), (OpDelete 5, [])]"



section \<open>Properties of the frame codec\<close>

lemma Uint16_PutUint16: "Uint16 (PutUint16 v @ rest) = v"
  unfolding Uint16_def PutUint16_def
  by (rule bit_word_eqI) (auto simp: bit_simps)

lemma ReadFull_append: "length xs = n \<Longrightarrow> ReadFull n (xs @ r) = (Inr xs, r)"
  by (simp add: ReadFull_def)

lemma unat_payload_len:
  "n \<le> 4096 \<Longrightarrow> unat (of_nat n :: uint16) = n"
  by (simp add: unat_of_nat)

lemma payload_len_le:
  assumes "n \<le> 4096" shows "\<not> (of_nat n :: uint16) > 4096"
proof -
  have "unat (of_nat n :: uint16) \<le> unat (4096 :: uint16)"
    using assms by (simp add: unat_of_nat)
  then show ?thesis by (simp add: word_le_nat_alt not_less)
qed

text \<open>
  C6. Writing a frame whose payload has at most 4096 bytes and reading the written bytes
  back succeeds and returns the frame itself, command and payload; bytes that follow the
  frame on the stream are left unread.
\<close>

theorem frame_roundtrip:
  assumes "length (Payload f) \<le> 4096"
  shows "ReadFrame (WriteFrame f @ rest) = (Inr f, rest)"
proof -
  let ?n = "length (Payload f)"
  let ?len = "of_nat ?n :: uint16"
  let ?hdr = "[Cmd f] @ PutUint16 ?len"
  let ?crc = "PutUint16 (calcCRC (?hdr @ Payload f))"
  have w: "WriteFrame f @ rest = [SyncByte] @ (?hdr @ (Payload f @ (?crc @ rest)))"
    by (simp add: WriteFrame_def Let_def)
  have r1: "ReadFull 1 ([SyncByte] @ (?hdr @ (Payload f @ (?crc @ rest))))
            = (Inr [SyncByte], ?hdr @ (Payload f @ (?crc @ rest)))"
    by (rule ReadFull_append) simp
  have r2: "ReadFull 3 (?hdr @ (Payload f @ (?crc @ rest))) = (Inr ?hdr, Payload f @ (?crc @ rest))"
    by (rule ReadFull_append) (simp add: PutUint16_def)
  have len: "Uint16 (drop 1 ?hdr) = ?len"
    using Uint16_PutUint16 [of ?len "[]"] by simp
  have le: "\<not> ?len > 4096" by (rule payload_len_le [OF assms])
  have un: "unat ?len = ?n" by (rule unat_payload_len [OF assms])
  have r3: "(if ?len > 0 then ReadFull (unat ?len) (Payload f @ (?crc @ rest))
             else (Inr [], Payload f @ (?crc @ rest))) = (Inr (Payload f), ?crc @ rest)"
  proof (cases "?len > 0")
    case True
    then show ?thesis using ReadFull_append [of "Payload f" ?n "?crc @ rest"] un by simp
  next
    case False
    then have "?len = 0" by (simp add: word_gt_0)
    then have "?n = 0" using un by simp
    then show ?thesis using False by simp
  qed
  have r4: "ReadFull 2 (?crc @ rest) = (Inr ?crc, rest)"
    by (rule ReadFull_append) (simp add: PutUint16_def)
  have crc: "Uint16 ?crc = calcCRC (?hdr @ Payload f)"
    using Uint16_PutUint16 [of _ "[]"] by simp
  show ?thesis
    unfolding w ReadFrame_def r1
    apply (simp only: prod.case sum.case nth_Cons_0 simp_thms if_False r2 Let_def len le r3 r4 crc)
    apply simp
    done
qed

theorem frame_roundtrip_witness:
  "length (Payload \<lparr>Cmd = 0x01, Payload = [1, 2, 3, 4]\<rparr>) \<le> 4096
   \<and> ReadFrame (WriteFrame \<lparr>Cmd = 0x01, Payload = [1, 2, 3, 4]\<rparr> @ [])
       = (Inr \<lparr>Cmd = 0x01, Payload = [1, 2, 3, 4]\<rparr>, [])"
  using frame_roundtrip [of "\<lparr>Cmd = 0x01, Payload = [1, 2, 3, 4]\<rparr>" "[]"] by simp

section \<open>Properties of the configuration codec\<close>

lemma take2_nth: "2 \<le> length b \<Longrightarrow> take 2 b = [b ! 0, b ! 1]"
  by (cases b; cases "tl b") (auto simp: numeral_2_eq_2)

lemma take4_nth: "4 \<le> length b \<Longrightarrow> take 4 b = [b ! 0, b ! 1, b ! 2, b ! 3]"
proof -
  assume a: "4 \<le> length b"
  then obtain x0 x1 x2 x3 r where "b = x0 # x1 # x2 # x3 # r"
    by (cases b; cases "tl b"; cases "tl (tl b)"; cases "tl (tl (tl b))") auto
  then show ?thesis by simp
qed

lemma PutUint16_Uint16: "2 \<le> length b \<Longrightarrow> PutUint16 (Uint16 b) = take 2 b"
proof -
  assume a: "2 \<le> length b"
  have 1: "(ucast (Uint16 b) :: byte) = b ! 0"
    unfolding Uint16_def by (rule bit_word_eqI) (auto simp: bit_simps dest: bit_imp_le_length)
  have 2: "(ucast (drop_bit 8 (Uint16 b)) :: byte) = b ! 1"
    unfolding Uint16_def by (rule bit_word_eqI) (auto simp: bit_simps dest: bit_imp_le_length)
  show ?thesis using take2_nth [OF a] by (simp add: PutUint16_def 1 2)
qed

lemma PutUint32_Uint32: "4 \<le> length b \<Longrightarrow> PutUint32 (Uint32 b) = take 4 b"
proof -
  assume a: "4 \<le> length b"
  have 1: "(ucast (Uint32 b) :: byte) = b ! 0"
    unfolding Uint32_def by (rule bit_word_eqI) (auto simp: bit_simps dest: bit_imp_le_length)
  have 2: "(ucast (drop_bit 8 (Uint32 b)) :: byte) = b ! 1"
    unfolding Uint32_def by (rule bit_word_eqI) (auto simp: bit_simps dest: bit_imp_le_length)
  have 3: "(ucast (drop_bit 16 (Uint32 b)) :: byte) = b ! 2"
    unfolding Uint32_def by (rule bit_word_eqI) (auto simp: bit_simps dest: bit_imp_le_length)
  have 4: "(ucast (drop_bit 24 (Uint32 b)) :: byte) = b ! 3"
    unfolding Uint32_def by (rule bit_word_eqI) (auto simp: bit_simps dest: bit_imp_le_length)
  show ?thesis using take4_nth [OF a] by (simp add: PutUint32_def 1 2 3 4)
qed


lemma take8_nth:
  "8 \<le> length c \<Longrightarrow> take 8 c = [c ! 0, c ! 1, c ! 2] @ take 2 (drop 3 c) @ [c ! 5, c ! 6, c ! 7]"
  by (auto simp: Suc_le_length_iff numeral_eq_Suc)

lemma marshal_unmarshal_binding:
  assumes "8 \<le> length c" shows "marshal_binding (unmarshal_binding c) = take 8 c"
proof -
  have "2 \<le> length (drop 3 c)" using assms by simp
  then have "PutUint16 (Uint16 (drop 3 c)) = take 2 (drop 3 c)" by (rule PutUint16_Uint16)
  then show ?thesis
    by (simp add: marshal_binding_def unmarshal_binding_def take8_nth [OF assms])
qed

lemma concat_chunks:
  "n * 8 \<le> length xs \<Longrightarrow> concat (map (\<lambda>i. take 8 (drop (i * 8) xs)) [0..<n]) = take (n * 8) xs"
proof (induction n)
  case 0
  then show ?case by simp
next
  case (Suc n)
  then have ih: "concat (map (\<lambda>i. take 8 (drop (i * 8) xs)) [0..<n]) = take (n * 8) xs" by simp
  have "take (Suc n * 8) xs = take (n * 8 + 8) xs" by (simp add: add.commute)
  also have "\<dots> = take (n * 8) xs @ take 8 (drop (n * 8) xs)" by (rule take_add)
  finally show ?case using ih by simp
qed

lemma marshal_unmarshal_bindings:
  assumes "length d = 286"
  shows "concat (map marshal_binding (map (\<lambda>i. unmarshal_binding (drop (30 + i * 8) d)) [0..<32]))
         = drop 30 d"
proof -
  have "map marshal_binding (map (\<lambda>i. unmarshal_binding (drop (30 + i * 8) d)) [0..<32])
        = map (\<lambda>i. take 8 (drop (i * 8) (drop 30 d))) [0..<32]"
    unfolding map_map map_eq_conv
  proof
    fix i assume "i \<in> set [0..<32]"
    then have "i < 32" by simp
    then have "8 \<le> length (drop (30 + i * 8) d)" using assms by simp
    then show "(marshal_binding \<circ> (\<lambda>i. unmarshal_binding (drop (30 + i * 8) d))) i
               = take 8 (drop (i * 8) (drop 30 d))"
      by (simp add: marshal_unmarshal_binding add.commute)
  qed
  then have "concat (map marshal_binding (map (\<lambda>i. unmarshal_binding (drop (30 + i * 8) d)) [0..<32]))
        = concat (map (\<lambda>i. take 8 (drop (i * 8) (drop 30 d))) [0..<32])"
    by (rule arg_cong)
  also have "\<dots> = take (32 * 8) (drop 30 d)"
    by (rule concat_chunks) (simp add: assms)
  also have "\<dots> = drop 30 d" using assms by simp
  finally show ?thesis .
qed

lemma take4_drop_nth:
  "k + 4 \<le> length d \<Longrightarrow> [d ! k, d ! (k + 1), d ! (k + 2), d ! (k + 3)] = take 4 (drop k d)"
  using take4_nth [of "drop k d"] by (simp add: add.commute)

lemma Profile_marshal_unmarshal:
  assumes "length d = 286"
  shows "\<exists>p. Profile_UnmarshalBinary d = Inr p \<and> Version p = Uint16 d \<and> Profile_MarshalBinary p = d"
proof -
  define p where "p = \<lparr>Version = Uint16 d,
                Flags = Uint32 (drop 2 d),
                RGBColor = Uint32 (drop 6 d),
                RGBPattern = d ! 10,
                Reserved1 = d ! 11,
                BindingCount = d ! 12,
                Reserved2 = d ! 13,
                Name = take 16 (drop 14 d),
                Bindings = map (\<lambda>i. unmarshal_binding (drop (30 + i * 8) d)) [0..<32]\<rparr>"
  have u: "Profile_UnmarshalBinary d = Inr p"
    unfolding Profile_UnmarshalBinary_def p_def using assms by simp
  have v: "PutUint16 (Uint16 d) = take 2 d" using assms by (simp add: PutUint16_Uint16)
  have f: "PutUint32 (Uint32 (drop 2 d)) = take 4 (drop 2 d)" using assms by (simp add: PutUint32_Uint32)
  have c: "PutUint32 (Uint32 (drop 6 d)) = take 4 (drop 6 d)" using assms by (simp add: PutUint32_Uint32)
  have m: "[d ! 10, d ! 11, d ! 12, d ! 13] = take 4 (drop 10 d)"
    using take4_drop_nth [of 10 d] assms by simp
  have j: "take 2 d @ take 4 (drop 2 d) @ take 4 (drop 6 d) @ take 4 (drop 10 d)
            @ take 16 (drop 14 d) @ drop 30 d = d"
  proof -
    have 1: "take 16 (drop 14 d) @ drop 30 d = drop 14 d"
      using append_take_drop_id [of 16 "drop 14 d"] by simp
    have 2: "take 4 (drop 10 d) @ drop 14 d = drop 10 d"
      using append_take_drop_id [of 4 "drop 10 d"] by simp
    have 3: "take 4 (drop 6 d) @ drop 10 d = drop 6 d"
      using append_take_drop_id [of 4 "drop 6 d"] by simp
    have 4: "take 4 (drop 2 d) @ drop 6 d = drop 2 d"
      using append_take_drop_id [of 4 "drop 2 d"] by simp
    show ?thesis by (simp only: 1 2 3 4 append_take_drop_id)
  qed
  have "Profile_MarshalBinary p = take 2 d @ take 4 (drop 2 d) @ take 4 (drop 6 d) @ take 4 (drop 10 d)
            @ take 16 (drop 14 d) @ drop 30 d"
    unfolding Profile_MarshalBinary_def p_def
    by (simp only: Profile.select_convs v f c m marshal_unmarshal_bindings [OF assms])
  then have "Profile_MarshalBinary p = d" by (simp only: j)
  moreover have "Version p = Uint16 d" by (simp add: p_def)
  ultimately show ?thesis using u by blast
qed

lemma DeviceConfig_marshal_unmarshal:
  assumes "length d = 12"
  shows "\<exists>c. DeviceConfig_UnmarshalBinary d = Inr c \<and> DeviceConfig_MarshalBinary c = d"
proof -
  have v: "PutUint16 (Uint16 d) = take 2 d" using assms by (simp add: PutUint16_Uint16)
  have f: "PutUint32 (Uint32 (drop 2 d)) = take 4 (drop 2 d)" using assms by (simp add: PutUint32_Uint32)
  have r: "PutUint16 (Uint16 (drop 10 d)) = take 2 (drop 10 d)" using assms by (simp add: PutUint16_Uint16)
  have m: "[d ! 6, d ! 7, d ! 8, d ! 9] = take 4 (drop 6 d)"
    using take4_drop_nth [of 6 d] assms by simp
  have j: "take 2 d @ take 4 (drop 2 d) @ take 4 (drop 6 d) @ take 2 (drop 10 d) = d"
  proof -
    have 1: "take 2 (drop 10 d) = drop 10 d" using assms by simp
    have 2: "take 4 (drop 6 d) @ drop 10 d = drop 6 d"
      using append_take_drop_id [of 4 "drop 6 d"] by simp
    have 3: "take 4 (drop 2 d) @ drop 6 d = drop 2 d"
      using append_take_drop_id [of 4 "drop 2 d"] by simp
    show ?thesis by (simp only: 1 2 3 append_take_drop_id)
  qed
  have "DeviceConfig_MarshalBinary \<lparr>DevVersion = Uint16 d,
                DevFlags = Uint32 (drop 2 d),
                ActiveProfile = d ! 6,
                Brightness = d ! 7,
                DebounceMs = d ! 8,
                DevReserved1 = d ! 9,
                DevReserved2 = Uint16 (drop 10 d)\<rparr> = take 2 d @ take 4 (drop 2 d) @ take 4 (drop 6 d) @ take 2 (drop 10 d)"
    unfolding DeviceConfig_MarshalBinary_def
    by (simp only: DeviceConfig.select_convs v f r m)
  then have "DeviceConfig_MarshalBinary \<lparr>DevVersion = Uint16 d,
                DevFlags = Uint32 (drop 2 d),
                ActiveProfile = d ! 6,
                Brightness = d ! 7,
                DebounceMs = d ! 8,
                DevReserved1 = d ! 9,
                DevReserved2 = Uint16 (drop 10 d)\<rparr> = d"
    by (simp only: j)
  then show ?thesis
    unfolding DeviceConfig_UnmarshalBinary_def using assms by simp
qed

section \<open>Properties of the dispatcher\<close>

lemma pop_fault_tree [simp]: "tree (snd (pop_fault m)) = tree m"
  by (simp add: pop_fault_def split: list.splits)

lemma pop_fault_cases:
  obtains "pop_fault m = (None, m)" "faults m = []"
  | f fs where "pop_fault m = (f, m\<lparr>faults := fs\<rparr>)" "faults m = f # fs"
  by (cases "faults m") (auto simp: pop_fault_def)

text \<open>
  C1. The claim is that a Discover frame (command 0x7F, empty payload) is answered with
  status OK and the payload "tuffpad", without touching storage. The switch of \<open>Handle\<close>
  has no case for 0x7F: the frame takes the default branch, the response is \<open>InvalidCmd\<close>
  with no payload, and the manager is left as it was (no storage operation).
\<close>

theorem Handle_Discover_is_unknown_command:
  "Handle \<lparr>Cmd = 0x7F, Payload = []\<rparr> m = (\<lparr>Status = StatusInvalidCmd, RPayload = []\<rparr>, m)"
  by (simp add: Handle_def Cmd_defs reply_def)

lemma deviceFile_not_root: "deviceFile \<noteq> ''/''"
  by (simp add: deviceFile_def)

lemma fs_Open_absent:
  assumes "map_of (tree m) path = None" "path \<noteq> ''/''"
  shows "\<exists>e m'. fs_Open path m = (Inl (LfsError e), m')"
  using assms
  by (auto simp: fs_Open_def is_dir_def pop_fault_def split: list.splits option.splits)

text \<open>
  C2. The claim is that GetDeviceConfig answers \<open>NotFound\<close> when the device-config record
  is absent. \<open>LoadDevice\<close> returns the error of \<open>Open\<close> as it is, never
  \<open>ErrProfileNotFound\<close>, so in every state without the record the response is \<open>Error\<close>
  (0x01) with no payload.
\<close>

theorem GetDeviceConfig_absent_is_Error:
  assumes "map_of (tree m) deviceFile = None"
  shows "fst (Handle \<lparr>Cmd = CmdGetDeviceConfig, Payload = pl\<rparr> m) = \<lparr>Status = StatusError, RPayload = []\<rparr>"
proof -
  obtain e m' where "fs_Open deviceFile m = (Inl (LfsError e), m')"
    using fs_Open_absent [OF assms deviceFile_not_root] by blast
  then show ?thesis
    by (simp add: Handle_def Cmd_defs handleGetDeviceConfig_def LoadDevice_def reply_def)
qed

theorem GetDeviceConfig_absent_is_Error_witness:
  "map_of (tree \<lparr>tree = [], faults = [], blockDevSize = 262144\<rparr>) deviceFile = None
   \<and> fst (Handle \<lparr>Cmd = CmdGetDeviceConfig, Payload = []\<rparr> \<lparr>tree = [], faults = [], blockDevSize = 262144\<rparr>)
       = \<lparr>Status = StatusError, RPayload = []\<rparr>"
  using GetDeviceConfig_absent_is_Error [of "\<lparr>tree = [], faults = [], blockDevSize = 262144\<rparr>" "[]"]
  by simp

text \<open>
  C4. A SetProfile frame of 287 bytes whose embedded version (bytes 1 and 2 of the
  payload, little-endian) differs from \<open>CurrentVersion\<close> is answered with
  \<open>VersionMismatch\<close>, and the manager is exactly as before: no filesystem call is made, so
  the target slot keeps its contents or its absence.
\<close>

theorem SetProfile_version_gate:
  assumes "length pl = 287" and "Uint16 (drop 1 pl) \<noteq> CurrentVersion"
  shows "Handle \<lparr>Cmd = CmdSetProfile, Payload = pl\<rparr> m
         = (\<lparr>Status = StatusVersionMismatch, RPayload = []\<rparr>, m)"
  using assms
  by (simp add: Handle_def Cmd_defs handleSetProfile_def Profile_UnmarshalBinary_def reply_def)

lemma Status_handleGetDeviceConfig: "Status (fst (handleGetDeviceConfig m)) \<noteq> StatusCRCError"
  by (simp add: handleGetDeviceConfig_def reply_def Status_defs split: prod.splits sum.splits)

lemma Status_handleSetDeviceConfig: "Status (fst (handleSetDeviceConfig pl m)) \<noteq> StatusCRCError"
  by (simp add: handleSetDeviceConfig_def reply_def Status_defs split: prod.splits sum.splits option.splits)

lemma Status_handleGetProfile: "Status (fst (handleGetProfile pl m)) \<noteq> StatusCRCError"
  by (simp add: handleGetProfile_def reply_def Status_defs split: prod.splits sum.splits)

lemma Status_handleSetProfile: "Status (fst (handleSetProfile pl m)) \<noteq> StatusCRCError"
  by (simp add: handleSetProfile_def reply_def Status_defs split: prod.splits sum.splits option.splits)

lemma Status_handleDeleteProfile: "Status (fst (handleDeleteProfile pl m)) \<noteq> StatusCRCError"
  by (simp add: handleDeleteProfile_def reply_def Status_defs split: prod.splits option.splits)

lemma Status_handleListProfiles: "Status (fst (handleListProfiles m)) \<noteq> StatusCRCError"
  by (simp add: handleListProfiles_def reply_def Status_defs split: prod.splits sum.splits)

lemma Status_handleGetStorageStats: "Status (fst (handleGetStorageStats m)) \<noteq> StatusCRCError"
  by (simp add: handleGetStorageStats_def reply_def Status_defs split: prod.splits sum.splits)

lemma Status_handleFactoryReset: "Status (fst (handleFactoryReset m)) \<noteq> StatusCRCError"
  by (simp add: handleFactoryReset_def reply_def Status_defs split: prod.splits option.splits)

lemma Status_Handle: "Status (fst (Handle f m)) \<noteq> StatusCRCError"
  unfolding Handle_def
  by (simp add: Status_handleGetDeviceConfig Status_handleSetDeviceConfig Status_handleGetProfile
      Status_handleSetProfile Status_handleDeleteProfile Status_handleListProfiles
      Status_handleGetStorageStats Status_handleFactoryReset)
    (simp add: handlePing_def handleGetVersion_def reply_def Status_defs)

lemma ReadFrame_bad_crc:
  assumes "length payload = unat len" and "len \<le> 4096" and "length crcBytes = 2"
    and "Uint16 crcBytes \<noteq> calcCRC ([cmd] @ PutUint16 len @ payload)"
  shows "ReadFrame ([SyncByte, cmd] @ PutUint16 len @ payload @ crcBytes @ rest)
         = (Inl ErrCRCMismatch, rest)"
proof -
  let ?hdr = "[cmd] @ PutUint16 len"
  have w: "[SyncByte, cmd] @ PutUint16 len @ payload @ crcBytes @ rest
           = [SyncByte] @ (?hdr @ (payload @ (crcBytes @ rest)))"
    by simp
  have r1: "ReadFull 1 ([SyncByte] @ (?hdr @ (payload @ (crcBytes @ rest))))
            = (Inr [SyncByte], ?hdr @ (payload @ (crcBytes @ rest)))"
    by (rule ReadFull_append) simp
  have r2: "ReadFull 3 (?hdr @ (payload @ (crcBytes @ rest))) = (Inr ?hdr, payload @ (crcBytes @ rest))"
    by (rule ReadFull_append) (simp add: PutUint16_def)
  have len: "Uint16 (drop 1 ?hdr) = len"
    using Uint16_PutUint16 [of len "[]"] by simp
  have le: "\<not> len > 4096" using assms(2) by (simp add: not_less)
  have r3: "(if len > 0 then ReadFull (unat len) (payload @ (crcBytes @ rest))
             else (Inr [], payload @ (crcBytes @ rest))) = (Inr payload, crcBytes @ rest)"
  proof (cases "len > 0")
    case True
    then show ?thesis using ReadFull_append [of payload "unat len" "crcBytes @ rest"] assms(1) by simp
  next
    case False
    then have "len = 0" by (simp add: word_gt_0)
    then have "payload = []" using assms(1) by simp
    then show ?thesis using False by simp
  qed
  have r4: "ReadFull 2 (crcBytes @ rest) = (Inr crcBytes, rest)"
    by (rule ReadFull_append) (simp add: assms(3))
  show ?thesis
    unfolding w ReadFrame_def r1
    apply (simp only: prod.case sum.case nth_Cons_0 simp_thms if_False r2 Let_def len le r3 r4)
    using assms(4) apply simp
    done
qed

text \<open>
  C8. \<open>Handle\<close> never answers with status \<open>CRCError\<close> (0x07), for any frame and state. A
  byte sequence that is a well-formed frame except that its CRC field differs from the CRC
  computed over command, length and payload makes \<open>ReadFrame\<close> fail with
  \<open>ErrCRCMismatch\<close>; the pass of the serial loop then writes no response and leaves the
  manager untouched.
\<close>

theorem CRCError_never_emitted:
  "Status (fst (Handle f m)) \<noteq> StatusCRCError
   \<and> (length payload = unat len \<and> len \<le> 4096 \<and> length crcBytes = 2
        \<and> Uint16 crcBytes \<noteq> calcCRC ([cmd] @ PutUint16 len @ payload)
      \<longrightarrow> ReadFrame ([SyncByte, cmd] @ PutUint16 len @ payload @ crcBytes @ rest)
            = (Inl ErrCRCMismatch, rest)
          \<and> Serial_Handle_step ([SyncByte, cmd] @ PutUint16 len @ payload @ crcBytes @ rest) m
            = (None, rest, m))"
proof -
  have "Status (fst (Handle f m)) \<noteq> StatusCRCError"
    by (rule Status_Handle)
  moreover have "ReadFrame r = (Inl ErrCRCMismatch, rest) \<Longrightarrow> Serial_Handle_step r m = (None, rest, m)" for r
    by (simp add: Serial_Handle_step_def)
  ultimately show ?thesis using ReadFrame_bad_crc [of payload len crcBytes cmd rest] by blast
qed


lemma crc_ping_frame: "calcCRC [8, 0, 0] = 0x653D"
  by code_simp

theorem SetProfile_version_gate_witness:
  "length (5 # 2 # 0 # replicate 284 (0 :: byte)) = 287
   \<and> Uint16 (drop 1 (5 # 2 # 0 # replicate 284 (0 :: byte))) \<noteq> CurrentVersion
   \<and> Handle \<lparr>Cmd = CmdSetProfile, Payload = 5 # 2 # 0 # replicate 284 0\<rparr>
         \<lparr>tree = [], faults = [], blockDevSize = 262144\<rparr>
       = (\<lparr>Status = StatusVersionMismatch, RPayload = []\<rparr>,
          \<lparr>tree = [], faults = [], blockDevSize = 262144\<rparr>)"
proof -
  have l: "length (5 # 2 # 0 # replicate 284 (0 :: byte)) = 287" by simp
  have v: "Uint16 (drop 1 (5 # 2 # 0 # replicate 284 (0 :: byte))) \<noteq> CurrentVersion"
    by (simp add: Uint16_def CurrentVersion_def)
  show ?thesis
    using SetProfile_version_gate [OF l v, of "\<lparr>tree = [], faults = [], blockDevSize = 262144\<rparr>"] l v
    by blast
qed

theorem CRCError_never_emitted_witness:
  "Status (fst (Handle \<lparr>Cmd = CmdPing, Payload = []\<rparr> \<lparr>tree = [], faults = [], blockDevSize = 262144\<rparr>))
     \<noteq> StatusCRCError
   \<and> ReadFrame [0xAA, 0x08, 0x00, 0x00, 0x00, 0x00] = (Inl ErrCRCMismatch, [])
   \<and> Serial_Handle_step [0xAA, 0x08, 0x00, 0x00, 0x00, 0x00]
        \<lparr>tree = [], faults = [], blockDevSize = 262144\<rparr>
       = (None, [], \<lparr>tree = [], faults = [], blockDevSize = 262144\<rparr>)"
proof -
  have h: "length ([] :: byte list) = unat (0 :: uint16) \<and> (0 :: uint16) \<le> 4096
        \<and> length [0 :: byte, 0] = 2
        \<and> Uint16 [0, 0] \<noteq> calcCRC ([8] @ PutUint16 0 @ [])"
    using crc_ping_frame by (simp add: Uint16_def PutUint16_def)
  show ?thesis
    using CRCError_never_emitted [of "\<lparr>Cmd = CmdPing, Payload = []\<rparr>"
        "\<lparr>tree = [], faults = [], blockDevSize = 262144\<rparr>" "[]" 0 "[0, 0]" 8 "[]"] h
    by (simp add: SyncByte_def PutUint16_def)
qed

section \<open>The caller's struct after a save\<close>

text \<open>
  C10. \<open>SaveProfile\<close> and \<open>SaveDevice\<close> assign \<open>CurrentVersion\<close> to the version field of the
  struct they are given and change no other field, whether the atomic write that follows
  succeeds or fails; but both return before the assignment when \<open>ensureDirs\<close> fails, and
  then the struct is exactly as the caller passed it and the error returned is the error
  of \<open>ensureDirs\<close>. When \<open>ensureDirs\<close> succeeds, what is returned is the result of the atomic
  write of the encoded struct, version field updated, to the path of the slot or of the
  device record.
\<close>

theorem Save_sets_Version_after_ensureDirs:
  "fst (snd (SaveProfile slot p m))
     = (if fst (ensureDirs m) = None then p\<lparr>Version := CurrentVersion\<rparr> else p)
   \<and> fst (snd (SaveDevice c m))
     = (if fst (ensureDirs m) = None then c\<lparr>DevVersion := CurrentVersion\<rparr> else c)
   \<and> (fst (ensureDirs m) \<noteq> None \<longrightarrow>
        fst (SaveProfile slot p m) = fst (ensureDirs m)
        \<and> fst (SaveDevice c m) = fst (ensureDirs m))
   \<and> (fst (ensureDirs m) = None \<longrightarrow>
        fst (SaveProfile slot p m)
          = fst (atomicWrite (profilePath slot)
                  (Profile_MarshalBinary (p\<lparr>Version := CurrentVersion\<rparr>)) (snd (ensureDirs m)))
        \<and> fst (SaveDevice c m)
          = fst (atomicWrite deviceFile
                  (DeviceConfig_MarshalBinary (c\<lparr>DevVersion := CurrentVersion\<rparr>))
                  (snd (ensureDirs m))))"
  by (simp add: SaveProfile_def SaveDevice_def Let_def split: prod.splits option.splits)

lemma ensureDirs_fresh_late_fault:
  "fst (ensureDirs (fresh_store\<lparr>faults := [None, None, None, None, Some errNoSpace]\<rparr>)) = None"
  by code_simp

lemma SaveProfile_fresh_late_fault:
  "fst (SaveProfile 5 sample_profile (fresh_store\<lparr>faults := [None, None, None, None, Some errNoSpace]\<rparr>))
   = Some (LfsError errNoSpace)"
  by code_simp

lemma SaveDevice_fresh_late_fault:
  "fst (SaveDevice sample_device (fresh_store\<lparr>faults := [None, None, None, None, Some errNoSpace]\<rparr>))
   = Some (LfsError errNoSpace)"
  by code_simp

lemma ensureDirs_fresh_early_fault:
  "fst (ensureDirs (fresh_store\<lparr>faults := [Some errIO]\<rparr>)) = Some (LfsError errIO)"
  by code_simp

text \<open>
  Two runs on a fresh volume: one where the fifth call fails, inside the atomic write, and
  one where the first call fails, inside \<open>ensureDirs\<close>.
\<close>

theorem Save_sets_Version_after_ensureDirs_witness:
  "fst (ensureDirs (fresh_store\<lparr>faults := [None, None, None, None, Some errNoSpace]\<rparr>)) = None
   \<and> fst (SaveProfile 5 sample_profile (fresh_store\<lparr>faults := [None, None, None, None, Some errNoSpace]\<rparr>))
     = Some (LfsError errNoSpace)
   \<and> fst (snd (SaveProfile 5 sample_profile
         (fresh_store\<lparr>faults := [None, None, None, None, Some errNoSpace]\<rparr>)))
     = sample_profile\<lparr>Version := CurrentVersion\<rparr>
   \<and> fst (SaveDevice sample_device (fresh_store\<lparr>faults := [None, None, None, None, Some errNoSpace]\<rparr>))
     = Some (LfsError errNoSpace)
   \<and> fst (snd (SaveDevice sample_device
         (fresh_store\<lparr>faults := [None, None, None, None, Some errNoSpace]\<rparr>)))
     = sample_device\<lparr>DevVersion := CurrentVersion\<rparr>
   \<and> fst (ensureDirs (fresh_store\<lparr>faults := [Some errIO]\<rparr>)) = Some (LfsError errIO)
   \<and> fst (SaveProfile 5 sample_profile (fresh_store\<lparr>faults := [Some errIO]\<rparr>))
     = Some (LfsError errIO)
   \<and> fst (snd (SaveProfile 5 sample_profile (fresh_store\<lparr>faults := [Some errIO]\<rparr>)))
     = sample_profile
   \<and> fst (SaveDevice sample_device (fresh_store\<lparr>faults := [Some errIO]\<rparr>))
     = Some (LfsError errIO)
   \<and> fst (snd (SaveDevice sample_device (fresh_store\<lparr>faults := [Some errIO]\<rparr>)))
     = sample_device"
  using Save_sets_Version_after_ensureDirs [of 5 sample_profile
      "fresh_store\<lparr>faults := [None, None, None, None, Some errNoSpace]\<rparr>" sample_device]
    Save_sets_Version_after_ensureDirs [of 5 sample_profile
      "fresh_store\<lparr>faults := [Some errIO]\<rparr>" sample_device]
    ensureDirs_fresh_late_fault SaveProfile_fresh_late_fault SaveDevice_fresh_late_fault
    ensureDirs_fresh_early_fault
  by simp

text \<open>
  The claim as stated (every call sets the version) fails when \<open>ensureDirs\<close> fails: with an
  I/O fault on the first \<open>Mkdir\<close> the call returns the error and the version is still 7.
\<close>

theorem Save_early_failure_counterexample:
  "fst (SaveProfile 5 sample_profile (fresh_store\<lparr>faults := [Some errIO]\<rparr>)) = Some (LfsError errIO)
   \<and> Version (fst (snd (SaveProfile 5 sample_profile (fresh_store\<lparr>faults := [Some errIO]\<rparr>)))) = 7
   \<and> Version (fst (snd (SaveProfile 5 sample_profile (fresh_store\<lparr>faults := [Some errIO]\<rparr>))))
       \<noteq> CurrentVersion
   \<and> DevVersion (fst (snd (SaveDevice sample_device (fresh_store\<lparr>faults := [Some errIO]\<rparr>))))
       \<noteq> CurrentVersion"
  by code_simp

section \<open>Properties of the filesystem calls\<close>

lemma fault_count_pop:
  "pop_fault m = (f, m1) \<Longrightarrow> fault_count m = fault_count m1 + (if f = None then 0 else 1)"
  by (auto simp: pop_fault_def fault_count_def split: list.splits)

lemma tree_pop: "pop_fault m = (f, m1) \<Longrightarrow> tree m1 = tree m"
  by (auto simp: pop_fault_def split: list.splits)

lemma fault_count_tree_update [simp]: "fault_count (m\<lparr>tree := t\<rparr>) = fault_count m"
  by (simp add: fault_count_def)

lemma pop_fault_zero: "fault_count m = 0 \<Longrightarrow> pop_fault m = (f, m1) \<Longrightarrow> f = None"
  using fault_count_pop [of m f m1] by (cases f) auto

subsection \<open>Remove\<close>

lemma fs_Remove_other:
  "q \<noteq> p \<Longrightarrow> map_of (tree (snd (fs_Remove p m))) q = map_of (tree m) q"
  by (auto simp: fs_Remove_def tree_pop split: prod.splits option.splits)

lemma fs_Remove_fc: "fault_count (snd (fs_Remove p m)) \<le> fault_count m"
  by (auto simp: fs_Remove_def split: prod.splits option.splits dest: fault_count_pop)

lemma fs_Remove_self_weak:
  "map_of (tree (snd (fs_Remove p m))) p = None
   \<or> map_of (tree (snd (fs_Remove p m))) p = map_of (tree m) p"
  by (auto simp: fs_Remove_def tree_pop delete_conv' split: prod.splits option.splits)

lemma fs_Remove_fault_or_gone:
  "map_of (tree m) p \<noteq> Some Dir \<Longrightarrow>
   fault_count (snd (fs_Remove p m)) < fault_count m \<or> map_of (tree (snd (fs_Remove p m))) p = None"
  by (auto simp: fs_Remove_def tree_pop delete_conv' split: prod.splits option.splits
      dest: fault_count_pop)

lemma fs_Remove_self:
  "fault_count m = 0 \<Longrightarrow> map_of (tree m) p \<noteq> Some Dir \<Longrightarrow>
   map_of (tree (snd (fs_Remove p m))) p = None"
  using fs_Remove_fault_or_gone [of m p] by simp


subsection \<open>OpenFile\<close>

lemma fs_OpenFile_other:
  "q \<noteq> p \<Longrightarrow> map_of (tree (snd (fs_OpenFile p m))) q = map_of (tree m) q"
  by (auto simp: fs_OpenFile_def tree_pop update_conv' split: prod.splits option.splits)

lemma fs_OpenFile_fc: "fault_count (snd (fs_OpenFile p m)) \<le> fault_count m"
  by (auto simp: fs_OpenFile_def split: prod.splits option.splits dest: fault_count_pop)


lemma fs_OpenFile_handle:
  "fs_OpenFile p m = (Inr f, m1) \<Longrightarrow> f = FileHandle p \<or> f = DirHandle p"
  by (auto simp: fs_OpenFile_def split: prod.splits option.splits if_splits)

lemma fs_OpenFile_ok:
  "fs_OpenFile p m = (Inr f, m1) \<Longrightarrow> map_of (tree m) p \<noteq> Some Dir \<Longrightarrow> p \<noteq> ''/'' \<Longrightarrow>
   f = FileHandle p \<and> map_of (tree m1) p = Some (File [])"
  by (auto simp: fs_OpenFile_def is_dir_def tree_pop update_conv'
      split: prod.splits option.splits if_splits)


subsection \<open>Write, Sync, Close\<close>

lemma file_Write_other:
  "f = FileHandle p \<or> f = DirHandle p \<Longrightarrow> q \<noteq> p \<Longrightarrow>
   map_of (tree (snd (file_Write f d m))) q = map_of (tree m) q"
  by (auto simp: file_Write_def tree_pop update_conv'
      split: prod.splits option.splits node.splits)

lemma file_Write_fc: "fault_count (snd (file_Write f d m)) \<le> fault_count m"
  by (auto simp: file_Write_def split: prod.splits option.splits handle.splits node.splits
      dest: fault_count_pop)

lemma file_Write_fail_file:
  "file_Write (FileHandle p) d m = (Inl e, m1) \<Longrightarrow> map_of (tree m) p = Some (File c) \<Longrightarrow>
   tree m1 = tree m \<and> fault_count m1 < fault_count m"
  by (auto simp: file_Write_def tree_pop split: prod.splits option.splits
      dest: fault_count_pop)

lemma file_Write_ok_file:
  "file_Write (FileHandle p) d m = (Inr n, m1) \<Longrightarrow> \<exists>c. map_of (tree m1) p = Some (File c)"
  by (auto simp: file_Write_def update_conv' split: prod.splits option.splits node.splits)


lemma file_Sync_tree [simp]: "tree (snd (file_Sync f m)) = tree m"
  by (auto simp: file_Sync_def tree_pop split: prod.splits)

lemma file_Sync_fc: "fault_count (snd (file_Sync f m)) \<le> fault_count m"
  by (auto simp: file_Sync_def split: prod.splits dest: fault_count_pop)

lemma file_Sync_fail: "file_Sync f m = (Some e, m1) \<Longrightarrow> fault_count m1 < fault_count m"
  by (auto simp: file_Sync_def split: prod.splits dest: fault_count_pop)

lemma file_Close_tree [simp]: "tree (snd (file_Close f m)) = tree m"
  by (auto simp: file_Close_def tree_pop split: prod.splits)

lemma file_Close_fc: "fault_count (snd (file_Close f m)) \<le> fault_count m"
  by (auto simp: file_Close_def split: prod.splits dest: fault_count_pop)

lemma file_Close_fail: "file_Close f m = (Some e, m1) \<Longrightarrow> fault_count m1 < fault_count m"
  by (auto simp: file_Close_def split: prod.splits dest: fault_count_pop)


section \<open>The atomic write\<close>

lemma temp_path_differs: "path @ tempSuffix \<noteq> path" "path @ tempSuffix \<noteq> ''/''"
  by (auto simp: tempSuffix_def append_eq_Cons_conv)









section \<open>Deleting a profile\<close>

lemma fs_Remove_absent:
  "map_of (tree m) p = None \<Longrightarrow>
   (\<exists>e. fst (fs_Remove p m) = Some e) \<and> tree (snd (fs_Remove p m)) = tree m"
  by (auto simp: fs_Remove_def tree_pop split: prod.splits option.splits)

lemma fs_Remove_twice:
  assumes "fault_count m = 0"
  shows "(\<exists>e. fst (fs_Remove p (snd (fs_Remove p m))) = Some e)
         \<and> tree (snd (fs_Remove p (snd (fs_Remove p m)))) = tree (snd (fs_Remove p m))"
proof -
  obtain f m' where pf: "pop_fault m = (f, m')" by (cases "pop_fault m")
  have f: "f = None" using pop_fault_zero [OF assms pf] .
  have t: "tree m' = tree m" using tree_pop [OF pf] .
  have c: "fault_count m' = 0" using fault_count_pop [OF pf] assms by simp
  show ?thesis
  proof (cases "fst (fs_Remove p m)")
    case None
    then have "tree (snd (fs_Remove p m)) = AList.delete p (tree m)"
      using pf f t by (auto simp: fs_Remove_def split: option.splits if_splits)
    then have "map_of (tree (snd (fs_Remove p m))) p = None" by (simp add: delete_conv')
    then show ?thesis by (rule fs_Remove_absent)
  next
    case (Some e)
    then have s: "snd (fs_Remove p m) = m'"
      using pf f by (auto simp: fs_Remove_def split: option.splits if_splits)
    obtain f2 m2 where pf2: "pop_fault m' = (f2, m2)" by (cases "pop_fault m'")
    have f2: "f2 = None" using pop_fault_zero [OF c pf2] .
    have t2: "tree m2 = tree m'" using tree_pop [OF pf2] .
    have "(\<exists>e. fst (fs_Remove p m') = Some e) \<and> tree (snd (fs_Remove p m')) = tree m'"
      using Some pf f t pf2 f2 t2
      by (auto simp: fs_Remove_def split: option.splits if_splits)
    then show ?thesis by (simp add: s)
  qed
qed

lemma Handle_DeleteProfile:
  "Handle \<lparr>Cmd = CmdDeleteProfile, Payload = [slot]\<rparr> m
   = (case fs_Remove (profilePath slot) m of
        (Some err, m1) \<Rightarrow> (\<lparr>Status = StatusError, RPayload = []\<rparr>, m1)
      | (None, m1) \<Rightarrow> (\<lparr>Status = StatusOK, RPayload = []\<rparr>, m1))"
  by (simp add: Handle_def Cmd_defs handleDeleteProfile_def DeleteProfile_def reply_def
      split: prod.splits option.splits)

text \<open>
  C3. \<open>DeleteProfile\<close> returns the result of \<open>Remove\<close> as it is, and \<open>Remove\<close> of a missing
  entry is an error. So a DeleteProfile frame for an empty slot is answered with \<open>Error\<close>
  (0x01) and the volume keeps its entries; and when the medium does not fail, a second
  delete of the same slot leaves the volume as the first delete left it and is answered
  with \<open>Error\<close>. Deleting is idempotent on the stored state, not on the status.
\<close>

theorem DeleteProfile_empty_slot_is_Error:
  "(map_of (tree m) (profilePath slot) = None \<longrightarrow>
      fst (Handle \<lparr>Cmd = CmdDeleteProfile, Payload = [slot]\<rparr> m)
        = \<lparr>Status = StatusError, RPayload = []\<rparr>
      \<and> tree (snd (Handle \<lparr>Cmd = CmdDeleteProfile, Payload = [slot]\<rparr> m)) = tree m)
   \<and> (fault_count m = 0 \<longrightarrow>
      Status (fst (Handle \<lparr>Cmd = CmdDeleteProfile, Payload = [slot]\<rparr>
                (snd (Handle \<lparr>Cmd = CmdDeleteProfile, Payload = [slot]\<rparr> m)))) = StatusError
      \<and> tree (snd (Handle \<lparr>Cmd = CmdDeleteProfile, Payload = [slot]\<rparr>
                (snd (Handle \<lparr>Cmd = CmdDeleteProfile, Payload = [slot]\<rparr> m))))
        = tree (snd (Handle \<lparr>Cmd = CmdDeleteProfile, Payload = [slot]\<rparr> m)))"
proof -
  have sn: "snd (Handle \<lparr>Cmd = CmdDeleteProfile, Payload = [slot]\<rparr> m') = snd (fs_Remove (profilePath slot) m')" for m'
    by (simp add: Handle_DeleteProfile split: prod.splits option.splits)
  have st: "fst (fs_Remove (profilePath slot) m') = Some e \<Longrightarrow>
        fst (Handle \<lparr>Cmd = CmdDeleteProfile, Payload = [slot]\<rparr> m') = \<lparr>Status = StatusError, RPayload = []\<rparr>" for m' e
    by (auto simp: Handle_DeleteProfile split: prod.splits option.splits)
  show ?thesis
    using fs_Remove_absent [of m "profilePath slot"] fs_Remove_twice [of m "profilePath slot"] st
    by (auto simp: sn)
qed

lemma delete_sample_slot:
  "fst (Handle \<lparr>Cmd = CmdDeleteProfile, Payload = [5]\<rparr> (sample_store\<lparr>faults := []\<rparr>))
   = \<lparr>Status = StatusOK, RPayload = []\<rparr>"
  by code_simp

theorem DeleteProfile_empty_slot_is_Error_witness:
  "map_of (tree fresh_store) (profilePath 5) = None
   \<and> fst (Handle \<lparr>Cmd = CmdDeleteProfile, Payload = [5]\<rparr> fresh_store)
       = \<lparr>Status = StatusError, RPayload = []\<rparr>
   \<and> tree (snd (Handle \<lparr>Cmd = CmdDeleteProfile, Payload = [5]\<rparr> fresh_store)) = tree fresh_store
   \<and> fault_count (sample_store\<lparr>faults := []\<rparr>) = 0
   \<and> fst (Handle \<lparr>Cmd = CmdDeleteProfile, Payload = [5]\<rparr> (sample_store\<lparr>faults := []\<rparr>))
       = \<lparr>Status = StatusOK, RPayload = []\<rparr>
   \<and> Status (fst (Handle \<lparr>Cmd = CmdDeleteProfile, Payload = [5]\<rparr>
         (snd (Handle \<lparr>Cmd = CmdDeleteProfile, Payload = [5]\<rparr> (sample_store\<lparr>faults := []\<rparr>)))))
       = StatusError
   \<and> tree (snd (Handle \<lparr>Cmd = CmdDeleteProfile, Payload = [5]\<rparr>
         (snd (Handle \<lparr>Cmd = CmdDeleteProfile, Payload = [5]\<rparr> (sample_store\<lparr>faults := []\<rparr>)))))
       = tree (snd (Handle \<lparr>Cmd = CmdDeleteProfile, Payload = [5]\<rparr> (sample_store\<lparr>faults := []\<rparr>)))"
proof -
  have a: "map_of (tree fresh_store) (profilePath 5) = None" by (simp add: fresh_store_def)
  have b: "fault_count (sample_store\<lparr>faults := []\<rparr>) = 0" by (simp add: fault_count_def)
  show ?thesis
    using DeleteProfile_empty_slot_is_Error [of fresh_store 5]
      DeleteProfile_empty_slot_is_Error [of "sample_store\<lparr>faults := []\<rparr>" 5]
      a b delete_sample_slot
    by simp
qed

text \<open>
  The claim as stated fails: on a fresh volume the delete of slot 5 is answered with
  \<open>Error\<close>, not \<open>OK\<close>; and on a volume that holds slot 5 the first delete is answered with
  \<open>OK\<close> and the second with \<open>Error\<close>.
\<close>

theorem DeleteProfile_not_idempotent_counterexample:
  "Status (fst (Handle \<lparr>Cmd = CmdDeleteProfile, Payload = [5]\<rparr> fresh_store)) = StatusError
   \<and> Status (fst (Handle \<lparr>Cmd = CmdDeleteProfile, Payload = [5]\<rparr> fresh_store)) \<noteq> StatusOK
   \<and> Status (fst (Handle \<lparr>Cmd = CmdDeleteProfile, Payload = [5]\<rparr> (sample_store\<lparr>faults := []\<rparr>)))
       = StatusOK
   \<and> Status (fst (Handle \<lparr>Cmd = CmdDeleteProfile, Payload = [5]\<rparr>
         (snd (Handle \<lparr>Cmd = CmdDeleteProfile, Payload = [5]\<rparr> (sample_store\<lparr>faults := []\<rparr>)))))
       = StatusError"
  by code_simp

section \<open>Slot numbers and paths\<close>

lemma is_digit_char_of: "(d :: nat) < 10 \<Longrightarrow> is_digit (char_of (48 + d))"
  by (simp add: is_digit_def)

lemma digit_value: "(d :: nat) < 10 \<Longrightarrow> (of_char (char_of (48 + d)) :: nat) - 48 = d"
  by simp

lemma digit_not_slash: "(d :: nat) < 10 \<Longrightarrow> char_of (48 + d) \<noteq> CHR ''/''"
proof
  assume d: "d < 10" and "char_of (48 + d) = CHR ''/''"
  then have "(of_char (char_of (48 + d)) :: nat) = of_char CHR ''/''" by simp
  then show False using d by simp
qed

lemma Itoa_not_empty: "Itoa n \<noteq> []"
  by (subst Itoa.simps) simp

lemma Itoa_no_slash: "CHR ''/'' \<notin> set (Itoa n)"
proof (induction n rule: Itoa.induct)
  case (1 n)
  show ?case
  proof (cases "n < 10")
    case True
    then show ?thesis using digit_not_slash [of n] by (subst Itoa.simps) auto
  next
    case False
    have "n mod 10 < 10" by simp
    then have "char_of (48 + n mod 10) \<noteq> CHR ''/''" by (rule digit_not_slash)
    then show ?thesis using False 1 by (subst Itoa.simps) auto
  qed
qed

lemma parse_digits_snoc:
  "parse_digits acc (s @ [c])
   = (case parse_digits acc s of
        None \<Rightarrow> None
      | Some v \<Rightarrow> if is_digit c then Some (v * 10 + (of_char c - 48)) else None)"
  by (induction s arbitrary: acc) auto

lemma parse_digits_Itoa: "parse_digits 0 (Itoa n) = Some n"
proof (induction n rule: Itoa.induct)
  case (1 n)
  show ?case
  proof (cases "n < 10")
    case True
    then show ?thesis
      using is_digit_char_of [of n] digit_value [of n] by (subst Itoa.simps) simp
  next
    case False
    have d: "n mod 10 < 10" by simp
    have "parse_digits 0 (Itoa (n div 10) @ [char_of (48 + n mod 10)]) = Some (n div 10 * 10 + n mod 10)"
      using 1 False is_digit_char_of [OF d] digit_value [OF d]
      by (simp only: parse_digits_snoc) simp
    then show ?thesis using False by (subst Itoa.simps) simp
  qed
qed

lemma ParseUint8_Itoa: "n \<le> 255 \<Longrightarrow> ParseUint8 (Itoa n) = Some n"
  by (simp add: ParseUint8_def Itoa_not_empty parse_digits_Itoa)

lemma Itoa_inj: "Itoa a = Itoa b \<Longrightarrow> a = b"
  by (metis option.inject parse_digits_Itoa)

lemma profilePath_inj: "profilePath a = profilePath b \<Longrightarrow> a = b"
  by (auto simp: profilePath_def path_Join_def word_unat_eq_iff dest: Itoa_inj)

lemma path_Dir_join:
  "CHR ''/'' \<notin> set name \<Longrightarrow> d \<noteq> [] \<Longrightarrow> path_Dir (d @ ''/'' @ name) = d"
proof -
  assume n: "CHR ''/'' \<notin> set name" and d: "d \<noteq> []"
  have "dropWhile (\<lambda>c. c \<noteq> CHR ''/'') (rev name @ CHR ''/'' # rev d) = CHR ''/'' # rev d"
    using n by (subst dropWhile_append2) auto
  then show ?thesis using d by (simp add: path_Dir_def)
qed

lemma path_Base_join:
  "CHR ''/'' \<notin> set name \<Longrightarrow> path_Base (d @ ''/'' @ name) = name"
proof -
  assume n: "CHR ''/'' \<notin> set name"
  have "takeWhile (\<lambda>c. c \<noteq> CHR ''/'') (rev name @ CHR ''/'' # rev d) = rev name"
    using n by (subst takeWhile_append2) auto
  then show ?thesis by (simp add: path_Base_def)
qed

lemma profile_name_no_slash: "CHR ''/'' \<notin> set (Itoa n @ profileSuffix)"
  by (simp add: Itoa_no_slash profileSuffix_def)

lemma path_Dir_profilePath: "path_Dir (profilePath k) = profilesDir"
  unfolding profilePath_def path_Join_def
  by (rule path_Dir_join [OF profile_name_no_slash]) (simp add: profilesDir_def)

lemma path_Base_profilePath: "path_Base (profilePath k) = Itoa (unat k) @ profileSuffix"
  unfolding profilePath_def path_Join_def
  by (rule path_Base_join [OF profile_name_no_slash])

lemma path_Dir_temp: "path_Dir (profilePath k @ tempSuffix) = profilesDir"
proof -
  have "CHR ''/'' \<notin> set ((Itoa (unat k) @ profileSuffix) @ tempSuffix)"
    using profile_name_no_slash [of "unat k"] by (simp add: tempSuffix_def)
  then have "path_Dir (profilesDir @ ''/'' @ ((Itoa (unat k) @ profileSuffix) @ tempSuffix)) = profilesDir"
    by (rule path_Dir_join) (simp add: profilesDir_def)
  then show ?thesis by (simp add: profilePath_def path_Join_def)
qed

lemma path_Dir_dirs:
  "path_Dir configDir = ''/''" "path_Dir profilesDir = configDir"
  by (simp_all add: path_Dir_def configDir_def profilesDir_def)

lemma dirs_distinct:
  "configDir \<noteq> profilesDir" "profilesDir \<noteq> ''/''" "configDir \<noteq> ''/''"
  by (simp_all add: configDir_def profilesDir_def)

lemma profilePath_not_dir: "profilePath k \<noteq> configDir" "profilePath k \<noteq> profilesDir"
proof -
  show "profilePath k \<noteq> configDir"
    using path_Dir_profilePath [of k] path_Dir_dirs(1) dirs_distinct by auto
  show "profilePath k \<noteq> profilesDir"
    using path_Dir_profilePath [of k] path_Dir_dirs(2) dirs_distinct by auto
qed

lemma slot_name_suffix:
  "strings_HasSuffix (Itoa n @ profileSuffix) profileSuffix"
  "\<not> strings_HasSuffix (Itoa n @ profileSuffix) tempSuffix"
  "strings_TrimSuffix (strings_TrimPrefix (Itoa n @ profileSuffix) profilePrefix) profileSuffix = Itoa n"
  by (simp_all add: strings_HasSuffix_def strings_TrimSuffix_def strings_TrimPrefix_def
      profilePrefix_def profileSuffix_def tempSuffix_def suffix_def)

section \<open>Saving and loading a record\<close>

lemma fs_OpenFile_file:
  "fs_OpenFile p m = (Inr (FileHandle q), m1) \<Longrightarrow> q = p \<and> map_of (tree m1) p = Some (File [])"
  by (auto simp: fs_OpenFile_def tree_pop update_conv' split: prod.splits option.splits if_splits)

lemma file_Write_dir: "file_Write (DirHandle p) d m = (res, m1) \<Longrightarrow> \<exists>e. res = Inl e"
  by (auto simp: file_Write_def split: prod.splits option.splits)

lemma file_Write_ok:
  "file_Write (FileHandle p) d m = (Inr n, m1) \<Longrightarrow> map_of (tree m) p = Some (File c) \<Longrightarrow>
   map_of (tree m1) p = Some (File (c @ d))"
  by (auto simp: file_Write_def tree_pop update_conv' split: prod.splits option.splits)

lemma fs_Rename_ok:
  "fs_Rename old new m = (None, m1) \<Longrightarrow>
   map_of (tree m) old \<noteq> None \<and> map_of (tree m1) new = map_of (tree m) old"
  by (auto simp: fs_Rename_def tree_pop update_conv' split: prod.splits option.splits if_splits)

lemma atomicWrite_success_steps:
  assumes "atomicWrite path data m = (None, m')"
  obtains m1 m2 m4 n where
    "fs_OpenFile (path @ tempSuffix) (snd (fs_Remove (path @ tempSuffix) m))
       = (Inr (FileHandle (path @ tempSuffix)), m1)"
    "file_Write (FileHandle (path @ tempSuffix)) data m1 = (Inr n, m2)"
    "tree m4 = tree m2"
    "fs_Rename (path @ tempSuffix) path (snd (fs_Remove path m4)) = (None, m')"
proof -
  define t where "t = path @ tempSuffix"
  define m0 where "m0 = snd (fs_Remove t m)"
  obtain res1 m1 where o: "fs_OpenFile t m0 = (res1, m1)" by (cases "fs_OpenFile t m0")
  obtain f where r1: "res1 = Inr f"
    using assms o
    by (cases res1) (simp_all add: atomicWrite_def atomicWrite_traced_def Let_def
        t_def [symmetric] m0_def [symmetric])
  obtain res2 m2 where w: "file_Write f data m1 = (res2, m2)" by (cases "file_Write f data m1")
  obtain n where r2: "res2 = Inr n"
    using assms o r1 w
    by (cases res2) (simp_all add: atomicWrite_def atomicWrite_traced_def Let_def
        t_def [symmetric] m0_def [symmetric])
  have fh: "f = FileHandle t"
    using fs_OpenFile_handle [of t m0 f m1] o r1 file_Write_dir [of t data m1 res2 m2] w r2 by auto
  obtain r3 m3 where sy: "file_Sync f m2 = (r3, m3)" by (cases "file_Sync f m2")
  have r3: "r3 = None"
    using assms o r1 w r2 sy
    by (cases r3) (simp_all add: atomicWrite_def atomicWrite_traced_def Let_def
        t_def [symmetric] m0_def [symmetric])
  have t3: "tree m3 = tree m2" using file_Sync_tree [of f m2] sy by simp
  obtain r4 m4 where cl: "file_Close f m3 = (r4, m4)" by (cases "file_Close f m3")
  have r4: "r4 = None"
    using assms o r1 w r2 sy r3 cl
    by (cases r4) (simp_all add: atomicWrite_def atomicWrite_traced_def Let_def
        t_def [symmetric] m0_def [symmetric])
  have t4: "tree m4 = tree m2" using file_Close_tree [of f m3] cl t3 by simp
  have rn: "fs_Rename t path (snd (fs_Remove path m4)) = (None, m')"
    using assms o r1 w r2 sy r3 cl r4
    by (simp add: atomicWrite_def atomicWrite_traced_def Let_def
        t_def [symmetric] m0_def [symmetric] split: prod.splits option.splits)
  show ?thesis
  proof (rule that)
    show "fs_OpenFile (path @ tempSuffix) (snd (fs_Remove (path @ tempSuffix) m))
            = (Inr (FileHandle (path @ tempSuffix)), m1)"
      using o r1 fh unfolding m0_def t_def by simp
    show "file_Write (FileHandle (path @ tempSuffix)) data m1 = (Inr n, m2)"
      using w r2 fh unfolding t_def by simp
    show "tree m4 = tree m2" by (rule t4)
    show "fs_Rename (path @ tempSuffix) path (snd (fs_Remove path m4)) = (None, m')"
      using rn unfolding t_def by simp
  qed
qed

lemma atomicWrite_success:
  assumes "atomicWrite path data m = (None, m')"
  shows "map_of (tree m') path = Some (File data)"
proof (rule atomicWrite_success_steps [OF assms])
  let ?t = "path @ tempSuffix"
  fix m1 m2 m4 n
  assume o: "fs_OpenFile ?t (snd (fs_Remove ?t m)) = (Inr (FileHandle ?t), m1)"
    and w: "file_Write (FileHandle ?t) data m1 = (Inr n, m2)"
    and t4: "tree m4 = tree m2"
    and rn: "fs_Rename ?t path (snd (fs_Remove path m4)) = (None, m')"
  have ne: "?t \<noteq> path" using temp_path_differs [of path] by simp
  have c1: "map_of (tree m1) ?t = Some (File [])" using fs_OpenFile_file [OF o] by simp
  have c2: "map_of (tree m2) ?t = Some (File data)" using file_Write_ok [OF w c1] by simp
  have c5: "map_of (tree (snd (fs_Remove path m4))) ?t = Some (File data)"
    using fs_Remove_other [OF ne, of m4] c2 t4 by simp
  show ?thesis using fs_Rename_ok [OF rn] c5 by simp
qed

lemma profilePath_not_root: "profilePath slot \<noteq> ''/''"
  by (simp add: profilePath_def path_Join_def profilesDir_def)

lemma fs_Open_file:
  assumes "map_of (tree m) p = Some (File c)" and "p \<noteq> ''/''"
  shows "(\<exists>e m1. fs_Open p m = (Inl (LfsError e), m1) \<and> fault_count m \<noteq> 0)
         \<or> (\<exists>m1. fs_Open p m = (Inr (FileHandle p), m1) \<and> tree m1 = tree m
                \<and> fault_count m1 = fault_count m)"
  using assms
  by (auto simp: fs_Open_def is_dir_def tree_pop split: prod.splits option.splits
      dest: fault_count_pop)

lemma file_Read_file:
  assumes "map_of (tree m) p = Some (File c)" and "c \<noteq> []"
  shows "(\<exists>e m1. file_Read (FileHandle p) n m = (Inl (LfsError e), m1) \<and> fault_count m \<noteq> 0)
         \<or> (\<exists>m1. file_Read (FileHandle p) n m = (Inr (take n c), m1))"
  using assms
  by (auto simp: file_Read_def tree_pop split: prod.splits option.splits
      dest: fault_count_pop)

lemma LoadProfile_stored:
  assumes st: "map_of (tree m) (profilePath slot) = Some (File P)" and len: "length P = 286"
  shows "(\<exists>e. fst (LoadProfile slot m) = Inl e \<and> fault_count m \<noteq> 0)
         \<or> (\<exists>p. fst (LoadProfile slot m) = Inr p \<and> Profile_MarshalBinary p = P)"
proof -
  obtain p where p: "Profile_UnmarshalBinary P = Inr p" "Profile_MarshalBinary p = P"
    using Profile_marshal_unmarshal [OF len] by blast
  have ne: "P \<noteq> []" using len by auto
  from fs_Open_file [OF st profilePath_not_root]
  show ?thesis
  proof (elim disjE exE conjE)
    fix e m1 assume "fs_Open (profilePath slot) m = (Inl (LfsError e), m1)" "fault_count m \<noteq> 0"
    then show ?thesis by (auto simp: LoadProfile_def)
  next
    fix m1 assume o: "fs_Open (profilePath slot) m = (Inr (FileHandle (profilePath slot)), m1)"
      and t: "tree m1 = tree m" and c: "fault_count m1 = fault_count m"
    have st1: "map_of (tree m1) (profilePath slot) = Some (File P)" using st t by simp
    from file_Read_file [OF st1 ne, of 286]
    show ?thesis
    proof (elim disjE exE conjE)
      fix e m2 assume "file_Read (FileHandle (profilePath slot)) 286 m1 = (Inl (LfsError e), m2)"
        "fault_count m1 \<noteq> 0"
      then show ?thesis using o c by (auto simp: LoadProfile_def)
    next
      fix m2 assume "file_Read (FileHandle (profilePath slot)) 286 m1 = (Inr (take 286 P), m2)"
      then show ?thesis using o p len by (auto simp: LoadProfile_def)
    qed
  qed
qed

lemma LoadDevice_stored:
  assumes st: "map_of (tree m) deviceFile = Some (File D)" and len: "length D = 12"
  shows "(\<exists>e. fst (LoadDevice m) = Inl e \<and> e \<noteq> ErrProfileNotFound \<and> fault_count m \<noteq> 0)
         \<or> (\<exists>c. fst (LoadDevice m) = Inr c \<and> DeviceConfig_MarshalBinary c = D)"
proof -
  obtain c where c: "DeviceConfig_UnmarshalBinary D = Inr c" "DeviceConfig_MarshalBinary c = D"
    using DeviceConfig_marshal_unmarshal [OF len] by blast
  have ne: "D \<noteq> []" using len by auto
  from fs_Open_file [OF st deviceFile_not_root]
  show ?thesis
  proof (elim disjE exE conjE)
    fix e m1 assume "fs_Open deviceFile m = (Inl (LfsError e), m1)" "fault_count m \<noteq> 0"
    then show ?thesis by (auto simp: LoadDevice_def)
  next
    fix m1 assume o: "fs_Open deviceFile m = (Inr (FileHandle deviceFile), m1)"
      and t: "tree m1 = tree m" and fc: "fault_count m1 = fault_count m"
    have st1: "map_of (tree m1) deviceFile = Some (File D)" using st t by simp
    from file_Read_file [OF st1 ne, of 12]
    show ?thesis
    proof (elim disjE exE conjE)
      fix e m2 assume "file_Read (FileHandle deviceFile) 12 m1 = (Inl (LfsError e), m2)"
        "fault_count m1 \<noteq> 0"
      then show ?thesis using o fc by (auto simp: LoadDevice_def)
    next
      fix m2 assume "file_Read (FileHandle deviceFile) 12 m1 = (Inr (take 12 D), m2)"
      then show ?thesis using o c len by (auto simp: LoadDevice_def)
    qed
  qed
qed


lemma SaveProfile_success:
  "SaveProfile slot p m = (None, p', m1) \<Longrightarrow>
   map_of (tree m1) (profilePath slot)
     = Some (File (Profile_MarshalBinary (p\<lparr>Version := CurrentVersion\<rparr>)))"
  by (auto simp: SaveProfile_def Let_def split: prod.splits option.splits
      dest: atomicWrite_success)

lemma SaveDevice_success:
  "SaveDevice c m = (None, c', m1) \<Longrightarrow>
   map_of (tree m1) deviceFile
     = Some (File (DeviceConfig_MarshalBinary (c\<lparr>DevVersion := CurrentVersion\<rparr>)))"
  by (auto simp: SaveDevice_def Let_def split: prod.splits option.splits
      dest: atomicWrite_success)

lemma SetProfile_OK_stored:
  assumes len: "length P = 286" and ver: "Uint16 P = CurrentVersion"
    and ok: "Handle \<lparr>Cmd = CmdSetProfile, Payload = slot # P\<rparr> m = (\<lparr>Status = StatusOK, RPayload = []\<rparr>, m1)"
  shows "map_of (tree m1) (profilePath slot) = Some (File P)"
proof -
  obtain p where p: "Profile_UnmarshalBinary P = Inr p" "Version p = Uint16 P"
      "Profile_MarshalBinary p = P"
    using Profile_marshal_unmarshal [OF len] by blast
  have same: "p\<lparr>Version := CurrentVersion\<rparr> = p" using p(2) ver by simp
  have "\<exists>p'. SaveProfile slot p m = (None, p', m1)"
    using ok len p(1,2) ver
    by (auto simp: Handle_def Cmd_defs handleSetProfile_def reply_def Status_defs
        split: prod.splits option.splits if_splits)
  then show ?thesis using SaveProfile_success [of slot p m _ m1] same p(3) by auto
qed

lemma DeviceConfig_marshal_version:
  assumes "length D = 12" and "DeviceConfig_UnmarshalBinary D = Inr c"
  shows "DeviceConfig_MarshalBinary (c\<lparr>DevVersion := v\<rparr>) = PutUint16 v @ drop 2 D"
proof -
  have "DeviceConfig_MarshalBinary c = D"
    using DeviceConfig_marshal_unmarshal [OF assms(1)] assms(2) by auto
  then have "drop 2 D = drop 2 (DeviceConfig_MarshalBinary c)" by simp
  also have "\<dots> = PutUint32 (DevFlags c)
       @ [ActiveProfile c, Brightness c, DebounceMs c, DevReserved1 c] @ PutUint16 (DevReserved2 c)"
    by (simp add: DeviceConfig_MarshalBinary_def PutUint16_def)
  finally show ?thesis by (simp add: DeviceConfig_MarshalBinary_def)
qed

lemma SetDeviceConfig_OK_stored:
  assumes len: "length D = 12"
    and ok: "Handle \<lparr>Cmd = CmdSetDeviceConfig, Payload = D\<rparr> m = (\<lparr>Status = StatusOK, RPayload = []\<rparr>, m1)"
  shows "map_of (tree m1) deviceFile = Some (File (PutUint16 CurrentVersion @ drop 2 D))"
proof -
  obtain c where c: "DeviceConfig_UnmarshalBinary D = Inr c"
    using DeviceConfig_marshal_unmarshal [OF len] by blast
  have "\<exists>c'. SaveDevice c m = (None, c', m1)"
    using ok len c
    by (auto simp: Handle_def Cmd_defs handleSetDeviceConfig_def reply_def Status_defs
        split: prod.splits option.splits if_splits)
  then show ?thesis
    using SaveDevice_success [of c m _ m1] DeviceConfig_marshal_version [OF len c] by auto
qed

lemma GetProfile_stored:
  assumes st: "map_of (tree m) (profilePath slot) = Some (File P)" and len: "length P = 286"
  shows "(Status (fst (Handle \<lparr>Cmd = CmdGetProfile, Payload = [slot]\<rparr> m)) = StatusOK
            \<longrightarrow> RPayload (fst (Handle \<lparr>Cmd = CmdGetProfile, Payload = [slot]\<rparr> m)) = P)
         \<and> (fault_count m = 0
            \<longrightarrow> fst (Handle \<lparr>Cmd = CmdGetProfile, Payload = [slot]\<rparr> m)
                = \<lparr>Status = StatusOK, RPayload = P\<rparr>)"
  using LoadProfile_stored [OF st len]
  by (auto simp: Handle_def Cmd_defs handleGetProfile_def reply_def Status_defs
      split: prod.splits sum.splits)

lemma GetDeviceConfig_stored:
  assumes st: "map_of (tree m) deviceFile = Some (File D)" and len: "length D = 12"
  shows "(Status (fst (Handle \<lparr>Cmd = CmdGetDeviceConfig, Payload = pl\<rparr> m)) = StatusOK
            \<longrightarrow> RPayload (fst (Handle \<lparr>Cmd = CmdGetDeviceConfig, Payload = pl\<rparr> m)) = D)
         \<and> (fault_count m = 0
            \<longrightarrow> fst (Handle \<lparr>Cmd = CmdGetDeviceConfig, Payload = pl\<rparr> m)
                = \<lparr>Status = StatusOK, RPayload = D\<rparr>)"
  using LoadDevice_stored [OF st len]
  by (auto simp: Handle_def Cmd_defs handleGetDeviceConfig_def reply_def Status_defs
      split: prod.splits sum.splits)

section \<open>Listing the profiles\<close>

lemma pop_fault_none: "faults m = [] \<Longrightarrow> pop_fault m = (None, m)"
  by (simp add: pop_fault_def)

lemma dir_entries_Cons:
  "dir_entries (e # t) d
   = (if path_Dir (fst e) = d then path_Base (fst e) # dir_entries t d else dir_entries t d)"
  by (simp add: dir_entries_def)

lemma collect_slots_profile:
  "collect_slots ((Itoa (unat k) @ profileSuffix) # rest) = k # collect_slots rest"
proof -
  have "unat k < 2 ^ 8" using unsigned_less [of k] by simp
  then have "unat k \<le> 255" by simp
  then have "ParseUint8 (Itoa (unat k)) = Some (unat k)" by (rule ParseUint8_Itoa)
  then show ?thesis by (simp add: slot_name_suffix)
qed

lemma collect_slots_inv:
  assumes "list_all allowed_entry t"
  shows "set (collect_slots (dir_entries t profilesDir)) = {k. profilePath k \<in> fst ` set t}
         \<and> (distinct (map fst t) \<longrightarrow> distinct (collect_slots (dir_entries t profilesDir)))"
  using assms
proof (induction t)
  case Nil
  then show ?case by (simp add: dir_entries_def)
next
  case (Cons e t)
  then have ih: "set (collect_slots (dir_entries t profilesDir)) = {k. profilePath k \<in> fst ` set t}"
      "distinct (map fst t) \<Longrightarrow> distinct (collect_slots (dir_entries t profilesDir))"
    by simp_all
  from Cons.prems have "allowed_entry e" by simp
  then consider (config) "e = (configDir, Dir)" | (profiles) "e = (profilesDir, Dir)"
    | (profile) k c where "e = (profilePath k, File c)"
    by (auto simp: allowed_entry_def)
  then show ?case
  proof cases
    case config
    then have "dir_entries (e # t) profilesDir = dir_entries t profilesDir"
      using path_Dir_dirs dirs_distinct by (simp add: dir_entries_Cons)
    then show ?thesis using ih config profilePath_not_dir by auto
  next
    case profiles
    then have "dir_entries (e # t) profilesDir = dir_entries t profilesDir"
      using path_Dir_dirs dirs_distinct by (simp add: dir_entries_Cons)
    then show ?thesis using ih profiles profilePath_not_dir by auto
  next
    case (profile k c)
    then have "dir_entries (e # t) profilesDir
               = (Itoa (unat k) @ profileSuffix) # dir_entries t profilesDir"
      by (simp add: dir_entries_Cons path_Dir_profilePath path_Base_profilePath)
    then have c: "collect_slots (dir_entries (e # t) profilesDir)
               = k # collect_slots (dir_entries t profilesDir)"
      by (simp only: collect_slots_profile)
    have s: "{j. profilePath j \<in> fst ` set (e # t)} = insert k {j. profilePath j \<in> fst ` set t}"
      using profile by (auto dest: profilePath_inj)
    show ?thesis using c s ih profile by auto
  qed
qed

lemma readDir_profiles:
  assumes "faults m = []" and "map_of (tree m) profilesDir = Some Dir"
  shows "readDir profilesDir m = (Inr (dir_entries (tree m) profilesDir), m)"
  using assms
  by (simp add: readDir_def fs_Open_def file_Readdir_def file_Close_def file_IsDir_def
      is_dir_def pop_fault_none)

lemma Handle_ListProfiles:
  assumes "faults m = []" and "map_of (tree m) profilesDir = Some Dir"
  shows "Handle \<lparr>Cmd = CmdListProfiles, Payload = pl\<rparr> m
         = (\<lparr>Status = StatusOK,
             RPayload = of_nat (length (collect_slots (dir_entries (tree m) profilesDir)))
                        # collect_slots (dir_entries (tree m) profilesDir)\<rparr>, m)"
  using readDir_profiles [OF assms]
  by (simp add: Handle_def Cmd_defs handleListProfiles_def ListProfiles_def)

lemma ProfileExists_faultless:
  assumes "faults m = []"
  shows "fst (ProfileExists k m) = (profilePath k \<in> fst ` set (tree m))"
proof -
  have "map_of (tree m) (profilePath k) \<noteq> None \<longleftrightarrow> profilePath k \<in> fst ` set (tree m)"
    by (simp add: map_of_eq_None_iff)
  then show ?thesis
    using assms profilePath_not_root [of k]
    by (auto simp: ProfileExists_def fs_Open_def is_dir_def pop_fault_none
        split: option.splits)
qed

lemma listing_of_inv:
  assumes inv: "store_inv (tree m)" and dir: "map_of (tree m) profilesDir = Some Dir"
    and nf: "faults m = []"
  shows "\<exists>slots. fst (Handle \<lparr>Cmd = CmdListProfiles, Payload = pl\<rparr> m)
                   = \<lparr>Status = StatusOK, RPayload = of_nat (length slots) # slots\<rparr>
           \<and> distinct slots \<and> set slots = {k. fst (ProfileExists k m)}"
proof -
  let ?slots = "collect_slots (dir_entries (tree m) profilesDir)"
  have a: "list_all allowed_entry (tree m)" and d: "distinct (map fst (tree m))"
    using inv by (simp_all add: store_inv_def)
  have "set ?slots = {k. profilePath k \<in> fst ` set (tree m)}" "distinct ?slots"
    using collect_slots_inv [OF a] d by simp_all
  then show ?thesis
    using Handle_ListProfiles [OF nf dir, of pl] ProfileExists_faultless [OF nf] by auto
qed


subsection \<open>How each call changes the entries\<close>

lemma fs_Remove_shape:
  "tree (snd (fs_Remove p m)) = tree m \<or> tree (snd (fs_Remove p m)) = AList.delete p (tree m)"
  by (auto simp: fs_Remove_def tree_pop split: prod.splits option.splits)

lemma fs_Remove_ok:
  "fs_Remove p m = (None, m1) \<Longrightarrow>
   map_of (tree m) p \<noteq> None \<and> tree m1 = AList.delete p (tree m)"
  by (auto simp: fs_Remove_def tree_pop split: prod.splits option.splits if_splits)

lemma fs_OpenFile_shape:
  "fs_OpenFile p m = (r, m1) \<Longrightarrow>
   tree m1 = tree m \<or> tree m1 = AList.update p (File []) (tree m)"
  by (auto simp: fs_OpenFile_def tree_pop split: prod.splits option.splits if_splits)

lemma fs_OpenFile_parent:
  "fs_OpenFile p m = (Inr f, m1) \<Longrightarrow> map_of (tree m) p = None \<Longrightarrow> p \<noteq> ''/'' \<Longrightarrow>
   is_dir (tree m) (path_Dir p)"
  by (auto simp: fs_OpenFile_def is_dir_def tree_pop split: prod.splits option.splits if_splits)

lemma file_Write_shape:
  "file_Write (FileHandle p) d m = (r, m1) \<Longrightarrow>
   tree m1 = tree m \<or> (\<exists>c. tree m1 = AList.update p (File c) (tree m))"
  by (auto simp: file_Write_def tree_pop split: prod.splits option.splits node.splits)

lemma fs_Rename_shape:
  "fs_Rename old new m = (None, m1) \<Longrightarrow>
   \<exists>n. map_of (tree m) old = Some n \<and> tree m1 = AList.update new n (AList.delete old (tree m))"
  by (auto simp: fs_Rename_def tree_pop split: prod.splits option.splits if_splits)

lemma fs_Mkdir_shape:
  "fs_Mkdir p m = (r, m1) \<Longrightarrow>
   tree m1 = tree m \<or> (is_dir (tree m) (path_Dir p) \<and> tree m1 = AList.update p Dir (tree m))"
  by (auto simp: fs_Mkdir_def tree_pop split: prod.splits option.splits if_splits)

lemma set_delete_subset: "set (AList.delete k t) \<subseteq> set t"
  by (auto simp: AList.delete_eq)

lemma set_update_subset: "set (AList.update k v t) \<subseteq> insert (k, v) (set t)"
  by (induction t) auto

lemma delete_key_gone: "e \<in> set (AList.delete k t) \<Longrightarrow> fst e \<noteq> k"
  by (auto simp: AList.delete_eq)

section \<open>The entries of a volume that holds only profiles\<close>

text \<open>The entries while a profile is being written: the allowed ones and the temporary file.\<close>

lemma mid_write_delete:
  assumes "distinct (map fst t)" and "\<forall>e \<in> set t. allowed_entry e \<or> fst e = x"
  shows "distinct (map fst (AList.delete k t))"
    and "\<forall>e \<in> set (AList.delete k t). allowed_entry e \<or> fst e = x"
  using assms set_delete_subset [of k t] by (auto simp: distinct_delete)

lemma mid_write_update:
  assumes "distinct (map fst t)" and "\<forall>e \<in> set t. allowed_entry e \<or> fst e = x"
  shows "distinct (map fst (AList.update x v t))"
    and "\<forall>e \<in> set (AList.update x v t). allowed_entry e \<or> fst e = x"
  using assms set_update_subset [of x v t] by (auto simp: distinct_update)

lemma last_profilePath: "last (profilePath k) = CHR ''n''"
  by (simp add: profilePath_def path_Join_def profileSuffix_def)

lemma temp_not_allowed: "allowed_entry e \<Longrightarrow> fst e \<noteq> profilePath k @ tempSuffix"
proof
  assume a: "allowed_entry e" and e: "fst e = profilePath k @ tempSuffix"
  have d: "path_Dir (fst e) = profilesDir" using e path_Dir_temp by simp
  have l: "last (fst e) = CHR ''p''" using e by (simp add: tempSuffix_def)
  from a consider "fst e = configDir" | "fst e = profilesDir" | j where "fst e = profilePath j"
    by (auto simp: allowed_entry_def)
  then show False
  proof cases
    case 1
    then show False using d path_Dir_dirs dirs_distinct by auto
  next
    case 2
    then show False using d path_Dir_dirs dirs_distinct by auto
  next
    case 3
    then show False using l last_profilePath [of j] by simp
  qed
qed

lemma temp_absent:
  assumes "list_all allowed_entry t"
  shows "map_of t (profilePath k @ tempSuffix) = None"
proof -
  have "profilePath k @ tempSuffix \<notin> fst ` set t"
  proof
    assume "profilePath k @ tempSuffix \<in> fst ` set t"
    then obtain e where e: "e \<in> set t" "fst e = profilePath k @ tempSuffix" by auto
    then have "allowed_entry e" using assms by (simp add: list_all_iff)
    then show False using temp_not_allowed [of e k] e by simp
  qed
  then show ?thesis by (simp add: map_of_eq_None_iff)
qed

lemma fs_Rename_other:
  "fs_Rename old new m = (r, m1) \<Longrightarrow> q \<noteq> old \<Longrightarrow> q \<noteq> new \<Longrightarrow>
   map_of (tree m1) q = map_of (tree m) q"
  by (auto simp: fs_Rename_def tree_pop update_conv' delete_conv'
      split: prod.splits option.splits if_splits)

lemma atomicWrite_profile_inv:
  assumes aw: "atomicWrite (profilePath k) data m = (None, m')"
    and d: "distinct (map fst (tree m))" and a: "list_all allowed_entry (tree m)"
  shows "distinct (map fst (tree m')) \<and> list_all allowed_entry (tree m')
         \<and> map_of (tree m') profilesDir = Some Dir
         \<and> (\<forall>q. q \<noteq> profilePath k \<longrightarrow> map_of (tree m') q = map_of (tree m) q)"
proof (rule atomicWrite_success_steps [OF aw])
  let ?p = "profilePath k"
  let ?t = "profilePath k @ tempSuffix"
  let ?W = "\<lambda>t. distinct (map fst t) \<and> (\<forall>e \<in> set t. allowed_entry e \<or> fst e = ?t)"
  fix m1 m2 m4 n
  assume o: "fs_OpenFile ?t (snd (fs_Remove ?t m)) = (Inr (FileHandle ?t), m1)"
    and w: "file_Write (FileHandle ?t) data m1 = (Inr n, m2)"
    and t4: "tree m4 = tree m2"
    and rn: "fs_Rename ?t ?p (snd (fs_Remove ?p m4)) = (None, m')"
  define m0 where "m0 = snd (fs_Remove ?t m)"
  define m5 where "m5 = snd (fs_Remove ?p m4)"
  have ne: "?t \<noteq> ?p" and nr: "?t \<noteq> ''/''" using temp_path_differs [of ?p] by simp_all
  have ta: "map_of (tree m) ?t = None" by (rule temp_absent [OF a])
  have W: "?W (tree m)" using d a by (simp add: list_all_iff)
  have W0: "?W (tree m0)"
    using fs_Remove_shape [of ?t m] W mid_write_delete [of "tree m" ?t ?t]
    unfolding m0_def by auto
  have W1: "?W (tree m1)"
    using fs_OpenFile_shape [OF o] W0 mid_write_update [of "tree m0" ?t "File []"]
    unfolding m0_def by auto
  have W2: "?W (tree m2)"
    using file_Write_shape [OF w]
  proof
    assume "tree m2 = tree m1"
    then show ?thesis using W1 by simp
  next
    assume "\<exists>c. tree m2 = AList.update ?t (File c) (tree m1)"
    then obtain c where "tree m2 = AList.update ?t (File c) (tree m1)" by blast
    then show ?thesis using W1 mid_write_update [of "tree m1" ?t "File c"] by simp
  qed
  have W5: "?W (tree m5)"
    using fs_Remove_shape [of ?p m4] W2 t4 mid_write_delete [of "tree m2" ?t ?p]
    unfolding m5_def by auto
  have c1: "map_of (tree m1) ?t = Some (File [])" using fs_OpenFile_file [OF o] by simp
  have c2: "map_of (tree m2) ?t = Some (File data)" using file_Write_ok [OF w c1] by simp
  have c5: "map_of (tree m5) ?t = Some (File data)"
    using fs_Remove_other [OF ne, of m4] c2 t4 by (simp add: m5_def)
  have sh: "tree m' = AList.update ?p (File data) (AList.delete ?t (tree m5))"
    using fs_Rename_shape [OF rn] c5 by (auto simp: m5_def)
  have dist: "distinct (map fst (tree m'))"
    using W5 by (simp add: sh distinct_update distinct_delete)
  have "allowed_entry e" if e: "e \<in> set (tree m')" for e
  proof -
    from e have "e = (?p, File data) \<or> e \<in> set (AList.delete ?t (tree m5))"
      using set_update_subset [of ?p "File data" "AList.delete ?t (tree m5)"] by (auto simp: sh)
    then show ?thesis
    proof
      assume "e = (?p, File data)"
      then show ?thesis by (auto simp: allowed_entry_def)
    next
      assume x: "e \<in> set (AList.delete ?t (tree m5))"
      then have "fst e \<noteq> ?t" by (rule delete_key_gone)
      moreover have "e \<in> set (tree m5)" using x set_delete_subset by fastforce
      ultimately show ?thesis using W5 by auto
    qed
  qed
  then have allowed: "list_all allowed_entry (tree m')" by (simp add: list_all_iff)
  have a0: "map_of (tree m0) ?t = None"
    using fs_Remove_self_weak [of ?t m] ta by (auto simp: m0_def)
  have "is_dir (tree m0) (path_Dir ?t)"
    using fs_OpenFile_parent [of ?t m0 "FileHandle ?t" m1] o a0 nr by (simp add: m0_def)
  then have pd0: "map_of (tree m0) profilesDir = Some Dir"
    using dirs_distinct by (simp add: path_Dir_temp is_dir_def)
  have other: "map_of (tree m') q = map_of (tree m) q" if q: "q \<noteq> ?p" for q
  proof (cases "q = ?t")
    case True
    then have "map_of (tree m') q = None" using ne by (simp add: sh update_conv' delete_conv')
    then show ?thesis using ta True by simp
  next
    case False
    have "map_of (tree m') q = map_of (tree m5) q"
      using fs_Rename_other [OF rn False q] by (simp add: m5_def)
    also have "\<dots> = map_of (tree m2) q"
      using fs_Remove_other [of q ?p m4] q t4 by (simp add: m5_def)
    also have "\<dots> = map_of (tree m1) q"
      using file_Write_other [of "FileHandle ?t" ?t q data m1] w False by simp
    also have "\<dots> = map_of (tree m0) q"
      using fs_OpenFile_other [of q ?t m0] o False by (simp add: m0_def)
    also have "\<dots> = map_of (tree m) q"
      using fs_Remove_other [of q ?t m] False by (simp add: m0_def)
    finally show ?thesis .
  qed
  have np: "profilesDir \<noteq> ?t"
    using temp_not_allowed [of "(profilesDir, Dir)" k] by (auto simp: allowed_entry_def)
  have "map_of (tree m) profilesDir = map_of (tree m0) profilesDir"
    using fs_Remove_other [OF np, of m] by (simp add: m0_def)
  then have "map_of (tree m') profilesDir = Some Dir"
    using other [of profilesDir] profilePath_not_dir [of k] pd0 by auto
  then show ?thesis using dist allowed other by blast
qed

lemma fs_Mkdir_inv:
  assumes mk: "fs_Mkdir p m = (r, m1)" and p: "p = configDir \<or> p = profilesDir"
    and d: "distinct (map fst (tree m))" and a: "list_all allowed_entry (tree m)"
  shows "distinct (map fst (tree m1)) \<and> list_all allowed_entry (tree m1)
         \<and> (\<forall>k. map_of (tree m1) (profilePath k) = map_of (tree m) (profilePath k))"
  using fs_Mkdir_shape [OF mk]
proof
  assume "tree m1 = tree m"
  then show ?thesis using d a by simp
next
  assume "is_dir (tree m) (path_Dir p) \<and> tree m1 = AList.update p Dir (tree m)"
  then have sh: "tree m1 = AList.update p Dir (tree m)" by simp
  have "allowed_entry (p, Dir)" using p by (auto simp: allowed_entry_def)
  then have "list_all allowed_entry (tree m1)"
    using a set_update_subset [of p Dir "tree m"] by (auto simp: sh list_all_iff)
  moreover have "distinct (map fst (tree m1))" using d by (simp add: sh distinct_update)
  moreover have "map_of (tree m1) (profilePath k) = map_of (tree m) (profilePath k)" for k
    using p profilePath_not_dir [of k] by (auto simp: sh update_conv')
  ultimately show ?thesis by blast
qed

lemma ensureDirs_inv:
  assumes en: "ensureDirs m = (r, m1)"
    and d: "distinct (map fst (tree m))" and a: "list_all allowed_entry (tree m)"
  shows "distinct (map fst (tree m1)) \<and> list_all allowed_entry (tree m1)
         \<and> (\<forall>k. map_of (tree m1) (profilePath k) = map_of (tree m) (profilePath k))"
proof -
  obtain e1 ma where m1: "fs_Mkdir configDir m = (e1, ma)" by (cases "fs_Mkdir configDir m")
  obtain e2 mb where m2: "fs_Mkdir profilesDir ma = (e2, mb)" by (cases "fs_Mkdir profilesDir ma")
  have A: "distinct (map fst (tree ma)) \<and> list_all allowed_entry (tree ma)
         \<and> (\<forall>k. map_of (tree ma) (profilePath k) = map_of (tree m) (profilePath k))"
    using fs_Mkdir_inv [OF m1 _ d a] by simp
  then have B: "distinct (map fst (tree mb)) \<and> list_all allowed_entry (tree mb)
         \<and> (\<forall>k. map_of (tree mb) (profilePath k) = map_of (tree m) (profilePath k))"
    using fs_Mkdir_inv [OF m2, of ] by simp
  have "m1 = ma \<or> m1 = mb"
    using en by (auto simp: ensureDirs_def m1 m2 split: if_splits)
  then show ?thesis using A B by blast
qed

lemma SaveProfile_inv:
  assumes sv: "SaveProfile slot p m = (None, p', m1)"
    and d: "distinct (map fst (tree m))" and a: "list_all allowed_entry (tree m)"
  shows "store_inv (tree m1) \<and> map_of (tree m1) profilesDir = Some Dir
         \<and> map_of (tree m1) (profilePath slot) \<noteq> None
         \<and> (\<forall>k. k \<noteq> slot \<longrightarrow> map_of (tree m1) (profilePath k) = map_of (tree m) (profilePath k))"
proof -
  obtain ma where en: "ensureDirs m = (None, ma)"
    and aw: "atomicWrite (profilePath slot) (Profile_MarshalBinary (p\<lparr>Version := CurrentVersion\<rparr>)) ma
             = (None, m1)"
    using sv by (auto simp: SaveProfile_def Let_def split: prod.splits option.splits)
  note E = ensureDirs_inv [OF en d a]
  have A: "distinct (map fst (tree m1)) \<and> list_all allowed_entry (tree m1)
         \<and> map_of (tree m1) profilesDir = Some Dir
         \<and> (\<forall>q. q \<noteq> profilePath slot \<longrightarrow> map_of (tree m1) q = map_of (tree ma) q)"
    using atomicWrite_profile_inv [OF aw] E by simp
  have "map_of (tree m1) (profilePath k) = map_of (tree m) (profilePath k)" if "k \<noteq> slot" for k
  proof -
    have "profilePath k \<noteq> profilePath slot" using that profilePath_inj by blast
    then show ?thesis using A E by simp
  qed
  moreover have "map_of (tree m1) (profilePath slot) \<noteq> None"
    using atomicWrite_success [OF aw] by simp
  ultimately show ?thesis using A by (simp add: store_inv_def)
qed

lemma DeleteProfile_inv:
  assumes dl: "DeleteProfile slot m = (None, m1)" and inv: "store_inv (tree m)"
  shows "store_inv (tree m1) \<and> map_of (tree m1) profilesDir = Some Dir
         \<and> map_of (tree m1) (profilePath slot) = None
         \<and> (\<forall>k. k \<noteq> slot \<longrightarrow> map_of (tree m1) (profilePath k) = map_of (tree m) (profilePath k))"
proof -
  have r: "map_of (tree m) (profilePath slot) \<noteq> None"
      "tree m1 = AList.delete (profilePath slot) (tree m)"
    using fs_Remove_ok [of "profilePath slot" m m1] dl by (simp_all add: DeleteProfile_def)
  have "tree m \<noteq> []" using r(1) by auto
  then have pd: "map_of (tree m) profilesDir = Some Dir" using inv by (simp add: store_inv_def)
  have pd1: "map_of (tree m1) profilesDir = Some Dir"
    using pd profilePath_not_dir [of slot] by (simp add: r(2) delete_conv')
  have "distinct (map fst (tree m1))" using inv by (simp add: r(2) store_inv_def distinct_delete)
  moreover have "list_all allowed_entry (tree m1)"
    using inv set_delete_subset [of "profilePath slot" "tree m"]
    by (auto simp: r(2) store_inv_def list_all_iff)
  moreover have "map_of (tree m1) (profilePath k) = map_of (tree m) (profilePath k)"
    if "k \<noteq> slot" for k
  proof -
    have "profilePath k \<noteq> profilePath slot" using that profilePath_inj by blast
    then show ?thesis by (simp add: r(2) delete_conv')
  qed
  moreover have "map_of (tree m1) (profilePath slot) = None" by (simp add: r(2) delete_conv')
  ultimately show ?thesis using pd1 by (simp add: store_inv_def)
qed

lemma run_ops_inv:
  assumes "run_ops ops m = Some m'" and "store_inv (tree m)"
    and "map_of (tree m) profilesDir = Some Dir \<or> ops \<noteq> []"
  shows "store_inv (tree m') \<and> map_of (tree m') profilesDir = Some Dir"
  using assms
proof (induction ops arbitrary: m)
  case Nil
  then show ?case by simp
next
  case (Cons x ops)
  obtain op fl where x: "x = (op, fl)" by (cases x)
  have inv: "store_inv (tree (m\<lparr>faults := fl\<rparr>))" using Cons.prems(2) by simp
  show ?case
  proof (cases op)
    case (OpSave slot p)
    then obtain p' m1 where sv: "SaveProfile slot p (m\<lparr>faults := fl\<rparr>) = (None, p', m1)"
      and rest: "run_ops ops m1 = Some m'"
      using Cons.prems(1) x by (auto split: prod.splits option.splits)
    have "store_inv (tree m1) \<and> map_of (tree m1) profilesDir = Some Dir"
      using SaveProfile_inv [OF sv] inv by (simp add: store_inv_def)
    then show ?thesis using Cons.IH [OF rest] by simp
  next
    case (OpDelete slot)
    then obtain m1 where dl: "DeleteProfile slot (m\<lparr>faults := fl\<rparr>) = (None, m1)"
      and rest: "run_ops ops m1 = Some m'"
      using Cons.prems(1) x by (auto split: prod.splits option.splits)
    have "store_inv (tree m1) \<and> map_of (tree m1) profilesDir = Some Dir"
      using DeleteProfile_inv [OF dl inv] by simp
    then show ?thesis using Cons.IH [OF rest] by simp
  qed
qed

section \<open>Operations on a medium that does not fail\<close>

lemma isExist_EntryExists: "isExist (Some (LfsError errEntryExists))"
  by (simp add: isExist_def os_IsExist_def)

lemma dir_not_profilePath: "configDir \<noteq> profilePath k" "profilesDir \<noteq> profilePath k"
  using profilePath_not_dir [of k] by auto

lemma map_of_allowed:
  assumes "list_all allowed_entry t" and "map_of t p = Some n"
  shows "allowed_entry (p, n)"
  using assms map_of_SomeD [of t p n] by (auto simp: list_all_iff)

lemma dir_entry_is_Dir:
  assumes "list_all allowed_entry t" and "map_of t p = Some n" and "p = configDir \<or> p = profilesDir"
  shows "n = Dir"
  using map_of_allowed [OF assms(1,2)] assms(3) dir_not_profilePath
  by (auto simp: allowed_entry_def)

lemma profile_entry_is_File:
  assumes "list_all allowed_entry t" and "map_of t (profilePath k) = Some n"
  shows "n \<noteq> Dir"
  using map_of_allowed [OF assms(1,2)] profilePath_not_dir [of k]
  by (auto simp: allowed_entry_def)

lemma ensureDirs_faultless:
  assumes nf: "faults m = []" and a: "list_all allowed_entry (tree m)"
  shows "\<exists>ma. ensureDirs m = (None, ma) \<and> faults ma = []
              \<and> map_of (tree ma) profilesDir = Some Dir"
proof -
  have c: "map_of (tree m) configDir = None \<or> map_of (tree m) configDir = Some Dir"
    using dir_entry_is_Dir [OF a, of configDir] by (cases "map_of (tree m) configDir") auto
  have p: "map_of (tree m) profilesDir = None \<or> map_of (tree m) profilesDir = Some Dir"
    using dir_entry_is_Dir [OF a, of profilesDir] by (cases "map_of (tree m) profilesDir") auto
  show ?thesis
    using c p nf dirs_distinct path_Dir_dirs isExist_EntryExists
    by (auto simp: ensureDirs_def fs_Mkdir_def pop_fault_def is_dir_def update_conv')
qed


lemma atomicWrite_faultless:
  assumes nf: "faults m = []" and a: "list_all allowed_entry (tree m)"
    and pd: "map_of (tree m) profilesDir = Some Dir"
  shows "\<exists>m1. atomicWrite (profilePath k) data m = (None, m1) \<and> faults m1 = []"
proof -
  let ?p = "profilePath k"
  let ?t = "profilePath k @ tempSuffix"
  have ta: "map_of (tree m) ?t = None" by (rule temp_absent [OF a])
  have ne: "?t \<noteq> ?p" "?t \<noteq> ''/''" using temp_path_differs [of ?p] by simp_all
  have np: "profilesDir \<noteq> ?t" "profilesDir \<noteq> ?p"
    using temp_not_allowed [of "(profilesDir, Dir)" k] dir_not_profilePath [of k]
    by (auto simp: allowed_entry_def)
  have r0: "fs_Remove ?t m = (Some (LfsError errNoDirEntry), m)"
    using nf ta by (simp add: fs_Remove_def pop_fault_def)
  define m1 where "m1 = m\<lparr>tree := AList.update ?t (File []) (tree m)\<rparr>"
  have o: "fs_OpenFile ?t m = (Inr (FileHandle ?t), m1)"
    using nf ta ne pd by (simp add: fs_OpenFile_def pop_fault_def is_dir_def path_Dir_temp m1_def)
  define m2 where "m2 = m\<lparr>tree := AList.update ?t (File data) (tree m1)\<rparr>"
  have w: "file_Write (FileHandle ?t) data m1 = (Inr (length data), m2)"
    using nf by (simp add: file_Write_def pop_fault_def m1_def m2_def update_conv')
  have sy: "file_Sync (FileHandle ?t) m2 = (None, m2)"
    using nf by (simp add: file_Sync_def pop_fault_def m2_def)
  have cl: "file_Close (FileHandle ?t) m2 = (None, m2)"
    using nf by (simp add: file_Close_def pop_fault_def m2_def)
  define m5 where "m5 = snd (fs_Remove ?p m2)"
  have f5: "faults m5 = []"
    using nf by (auto simp: m5_def m2_def fs_Remove_def pop_fault_def split: option.splits)
  have t2: "map_of (tree m2) ?t = Some (File data)" "map_of (tree m2) profilesDir = Some Dir"
      "map_of (tree m2) ?p = map_of (tree m) ?p"
    using np ne pd by (simp_all add: m2_def m1_def update_conv')
  have nd: "map_of (tree m) ?p \<noteq> Some Dir"
    using profile_entry_is_File [OF a, of k] by auto
  have p5: "map_of (tree m5) ?p = None"
    using nf t2(3) nd
    by (auto simp: m5_def fs_Remove_def pop_fault_def m2_def delete_conv' split: option.splits)
  have t5: "map_of (tree m5) ?t = Some (File data)" "map_of (tree m5) profilesDir = Some Dir"
    using fs_Remove_other [of ?t ?p m2] fs_Remove_other [of profilesDir ?p m2] t2 ne np
    by (simp_all add: m5_def)
  have rn: "\<exists>m6. fs_Rename ?t ?p m5 = (None, m6) \<and> faults m6 = []"
    using f5 p5 t5 profilePath_not_root [of k]
    by (simp add: fs_Rename_def pop_fault_def is_dir_def path_Dir_profilePath)
  then obtain m6 where m6: "fs_Rename ?t ?p m5 = (None, m6)" "faults m6 = []" by blast
  have "atomicWrite ?p data m = (None, m6)"
    by (simp add: atomicWrite_def atomicWrite_traced_def Let_def r0 o w sy cl
        m5_def [symmetric] m6(1))
  then show ?thesis using m6(2) by blast
qed

lemma SaveProfile_faultless:
  assumes nf: "faults m = []" and inv: "store_inv (tree m)"
  shows "\<exists>p' m1. SaveProfile slot p m = (None, p', m1) \<and> faults m1 = []"
proof -
  have d: "distinct (map fst (tree m))" and a: "list_all allowed_entry (tree m)"
    using inv by (simp_all add: store_inv_def)
  obtain ma where en: "ensureDirs m = (None, ma)" "faults ma = []"
      "map_of (tree ma) profilesDir = Some Dir"
    using ensureDirs_faultless [OF nf a] by blast
  have aa: "list_all allowed_entry (tree ma)" using ensureDirs_inv [OF en(1) d a] by simp
  obtain m1 where "atomicWrite (profilePath slot)
        (Profile_MarshalBinary (p\<lparr>Version := CurrentVersion\<rparr>)) ma = (None, m1)" "faults m1 = []"
    using atomicWrite_faultless [OF en(2) aa en(3)] by blast
  then show ?thesis by (simp add: SaveProfile_def en(1) Let_def)
qed

lemma SetProfile_faultless:
  assumes nf: "faults m = []" and inv: "store_inv (tree m)"
    and len: "length P = 286" and ver: "Uint16 P = CurrentVersion"
  shows "\<exists>m1. Handle \<lparr>Cmd = CmdSetProfile, Payload = slot # P\<rparr> m
                 = (\<lparr>Status = StatusOK, RPayload = []\<rparr>, m1) \<and> faults m1 = []"
proof -
  obtain p where p: "Profile_UnmarshalBinary P = Inr p" "Version p = Uint16 P"
    using Profile_marshal_unmarshal [OF len] by blast
  obtain p' m1 where "SaveProfile slot p m = (None, p', m1)" "faults m1 = []"
    using SaveProfile_faultless [OF nf inv] by blast
  then show ?thesis
    using len p ver
    by (simp add: Handle_def Cmd_defs handleSetProfile_def reply_def)
qed

lemma run_ops_append:
  "run_ops (a @ b) m = (case run_ops a m of None \<Rightarrow> None | Some m1 \<Rightarrow> run_ops b m1)"
proof (induction a arbitrary: m)
  case Nil
  then show ?case by simp
next
  case (Cons x a)
  obtain op fl where x: "x = (op, fl)" by (cases x)
  show ?case using Cons.IH by (cases op) (auto simp: x split: prod.splits option.splits)
qed

lemma fill_slots_Suc: "fill_slots (Suc n) = fill_slots n @ [(OpSave (of_nat n) sample_profile, [])]"
  by (simp add: fill_slots_def)

lemma fill_run:
  assumes "tree m0 = []" and "n \<le> 256"
  shows "\<exists>m. run_ops (fill_slots n) m0 = Some m \<and> store_inv (tree m)
             \<and> (\<forall>k. (map_of (tree m) (profilePath k) \<noteq> None) = (unat k < n))"
  using assms(2)
proof (induction n)
  case 0
  then show ?case using assms(1) by (simp add: fill_slots_def store_inv_def)
next
  case (Suc n)
  then obtain m where m: "run_ops (fill_slots n) m0 = Some m" "store_inv (tree m)"
      "\<forall>k. (map_of (tree m) (profilePath k) \<noteq> None) = (unat k < n)"
    by auto
  let ?slot = "of_nat n :: byte"
  have un: "unat ?slot = n" using Suc.prems by (simp add: unat_of_nat)
  obtain p' m1 where sv: "SaveProfile ?slot sample_profile (m\<lparr>faults := []\<rparr>) = (None, p', m1)"
    using SaveProfile_faultless [of "m\<lparr>faults := []\<rparr>" ?slot sample_profile] m(2) by auto
  have d: "distinct (map fst (tree (m\<lparr>faults := []\<rparr>)))"
    and a: "list_all allowed_entry (tree (m\<lparr>faults := []\<rparr>))"
    using m(2) by (simp_all add: store_inv_def)
  note S = SaveProfile_inv [OF sv d a]
  have I: "store_inv (tree m1)" "map_of (tree m1) (profilePath ?slot) \<noteq> None"
      "\<forall>k. k \<noteq> ?slot \<longrightarrow> map_of (tree m1) (profilePath k) = map_of (tree m) (profilePath k)"
    using S by simp_all
  have "(map_of (tree m1) (profilePath k) \<noteq> None) = (unat k < Suc n)" for k
  proof (cases "k = ?slot")
    case True
    then show ?thesis using I(2) un by simp
  next
    case False
    then have "unat k \<noteq> n" using un by auto
    then show ?thesis using False I(3) m(3) by auto
  qed
  moreover have "run_ops (fill_slots (Suc n)) m0 = Some m1"
    by (simp add: fill_slots_Suc run_ops_append m(1) sv)
  ultimately show ?case using I(1) by blast
qed

section \<open>Persistence round trip\<close>

text \<open>
  C5. Persistence round trip. When a SetProfile frame carrying the slot and a 286-byte
  profile \<open>P\<close> of the current version is answered with \<open>OK\<close>, a GetProfile of that slot on
  the resulting state returns exactly the bytes \<open>P\<close> (whose version is the current one):
  whenever it answers \<open>OK\<close> its payload is \<open>P\<close>, and it does answer \<open>OK\<close> when the medium does
  not fail during the read. Likewise, after a SetDeviceConfig of 12 bytes \<open>D\<close> answered with
  \<open>OK\<close>, GetDeviceConfig returns \<open>D\<close> with its first two bytes replaced by the current
  version and all other bytes as written.
\<close>

theorem persistence_roundtrip:
  "(length P = 286 \<and> Uint16 P = CurrentVersion
      \<and> Handle \<lparr>Cmd = CmdSetProfile, Payload = slot # P\<rparr> m
          = (\<lparr>Status = StatusOK, RPayload = []\<rparr>, m1)
    \<longrightarrow> (Status (fst (Handle \<lparr>Cmd = CmdGetProfile, Payload = [slot]\<rparr> m1)) = StatusOK
            \<longrightarrow> RPayload (fst (Handle \<lparr>Cmd = CmdGetProfile, Payload = [slot]\<rparr> m1)) = P)
        \<and> (fault_count m1 = 0
            \<longrightarrow> fst (Handle \<lparr>Cmd = CmdGetProfile, Payload = [slot]\<rparr> m1)
                = \<lparr>Status = StatusOK, RPayload = P\<rparr>))
   \<and> (length D = 12
      \<and> Handle \<lparr>Cmd = CmdSetDeviceConfig, Payload = D\<rparr> m
          = (\<lparr>Status = StatusOK, RPayload = []\<rparr>, m2)
    \<longrightarrow> (Status (fst (Handle \<lparr>Cmd = CmdGetDeviceConfig, Payload = []\<rparr> m2)) = StatusOK
            \<longrightarrow> RPayload (fst (Handle \<lparr>Cmd = CmdGetDeviceConfig, Payload = []\<rparr> m2))
                = PutUint16 CurrentVersion @ drop 2 D)
        \<and> (fault_count m2 = 0
            \<longrightarrow> fst (Handle \<lparr>Cmd = CmdGetDeviceConfig, Payload = []\<rparr> m2)
                = \<lparr>Status = StatusOK, RPayload = PutUint16 CurrentVersion @ drop 2 D\<rparr>))"
proof (intro conjI impI; (elim conjE)?)
  assume a: "length P = 286" "Uint16 P = CurrentVersion"
    "Handle \<lparr>Cmd = CmdSetProfile, Payload = slot # P\<rparr> m = (\<lparr>Status = StatusOK, RPayload = []\<rparr>, m1)"
  note g = GetProfile_stored [OF SetProfile_OK_stored [OF a] a(1)]
  {
    assume "Status (fst (Handle \<lparr>Cmd = CmdGetProfile, Payload = [slot]\<rparr> m1)) = StatusOK"
    then show "RPayload (fst (Handle \<lparr>Cmd = CmdGetProfile, Payload = [slot]\<rparr> m1)) = P"
      using g by blast
  }
  {
    assume "fault_count m1 = 0"
    then show "fst (Handle \<lparr>Cmd = CmdGetProfile, Payload = [slot]\<rparr> m1) = \<lparr>Status = StatusOK, RPayload = P\<rparr>"
      using g by blast
  }
next
  assume a: "length D = 12"
    "Handle \<lparr>Cmd = CmdSetDeviceConfig, Payload = D\<rparr> m = (\<lparr>Status = StatusOK, RPayload = []\<rparr>, m2)"
  have l: "length (PutUint16 CurrentVersion @ drop 2 D) = 12" using a(1) by (simp add: PutUint16_def)
  note g = GetDeviceConfig_stored [OF SetDeviceConfig_OK_stored [OF a] l, of "[]"]
  {
    assume "Status (fst (Handle \<lparr>Cmd = CmdGetDeviceConfig, Payload = []\<rparr> m2)) = StatusOK"
    then show "RPayload (fst (Handle \<lparr>Cmd = CmdGetDeviceConfig, Payload = []\<rparr> m2))
                = PutUint16 CurrentVersion @ drop 2 D"
      using g by blast
  }
  {
    assume "fault_count m2 = 0"
    then show "fst (Handle \<lparr>Cmd = CmdGetDeviceConfig, Payload = []\<rparr> m2)
                = \<lparr>Status = StatusOK, RPayload = PutUint16 CurrentVersion @ drop 2 D\<rparr>"
      using g by blast
  }
qed

lemma sample_SetDeviceConfig:
  "fst (Handle \<lparr>Cmd = CmdSetDeviceConfig, Payload = sample_device_bytes\<rparr> fresh_store)
     = \<lparr>Status = StatusOK, RPayload = []\<rparr>
   \<and> fault_count (snd (Handle \<lparr>Cmd = CmdSetDeviceConfig, Payload = sample_device_bytes\<rparr> fresh_store)) = 0"
  by code_simp

theorem persistence_roundtrip_witness:
  "length sample_profile_bytes = 286 \<and> Uint16 sample_profile_bytes = CurrentVersion
   \<and> fst (Handle \<lparr>Cmd = CmdSetProfile, Payload = 5 # sample_profile_bytes\<rparr> fresh_store)
       = \<lparr>Status = StatusOK, RPayload = []\<rparr>
   \<and> fst (Handle \<lparr>Cmd = CmdGetProfile, Payload = [5]\<rparr>
         (snd (Handle \<lparr>Cmd = CmdSetProfile, Payload = 5 # sample_profile_bytes\<rparr> fresh_store)))
       = \<lparr>Status = StatusOK, RPayload = sample_profile_bytes\<rparr>
   \<and> length sample_device_bytes = 12
   \<and> fst (Handle \<lparr>Cmd = CmdSetDeviceConfig, Payload = sample_device_bytes\<rparr> fresh_store)
       = \<lparr>Status = StatusOK, RPayload = []\<rparr>
   \<and> fst (Handle \<lparr>Cmd = CmdGetDeviceConfig, Payload = []\<rparr>
         (snd (Handle \<lparr>Cmd = CmdSetDeviceConfig, Payload = sample_device_bytes\<rparr> fresh_store)))
       = \<lparr>Status = StatusOK, RPayload = [1, 0, 0xEF, 0xBE, 0xAD, 0xDE, 3, 200, 10, 0, 0, 0]\<rparr>"
proof -
  let ?m2 = "snd (Handle \<lparr>Cmd = CmdSetDeviceConfig, Payload = sample_device_bytes\<rparr> fresh_store)"
  have l: "length sample_profile_bytes = 286" by (simp add: sample_profile_bytes_def)
  have v: "Uint16 sample_profile_bytes = CurrentVersion"
    by (simp add: sample_profile_bytes_def Uint16_def CurrentVersion_def)
  obtain m1 where s: "Handle \<lparr>Cmd = CmdSetProfile, Payload = 5 # sample_profile_bytes\<rparr> fresh_store
           = (\<lparr>Status = StatusOK, RPayload = []\<rparr>, m1)" and f: "faults m1 = []"
    using SetProfile_faultless [of fresh_store sample_profile_bytes 5] l v
    by (auto simp: fresh_store_def store_inv_def)
  have fc: "fault_count m1 = 0" using f by (simp add: fault_count_def)
  have ld: "length sample_device_bytes = 12" by (simp add: sample_device_bytes_def)
  have sd: "Handle \<lparr>Cmd = CmdSetDeviceConfig, Payload = sample_device_bytes\<rparr> fresh_store
           = (\<lparr>Status = StatusOK, RPayload = []\<rparr>, ?m2)"
    using sample_SetDeviceConfig by (simp add: prod_eq_iff)
  have d: "PutUint16 CurrentVersion @ drop 2 sample_device_bytes
           = [1, 0, 0xEF, 0xBE, 0xAD, 0xDE, 3, 200, 10, 0, 0, 0]"
    by (simp add: PutUint16_def CurrentVersion_def sample_device_bytes_def)
  have "fst (Handle \<lparr>Cmd = CmdGetProfile, Payload = [5]\<rparr> m1)
          = \<lparr>Status = StatusOK, RPayload = sample_profile_bytes\<rparr>
      \<and> fst (Handle \<lparr>Cmd = CmdGetDeviceConfig, Payload = []\<rparr> ?m2)
          = \<lparr>Status = StatusOK, RPayload = PutUint16 CurrentVersion @ drop 2 sample_device_bytes\<rparr>"
    using persistence_roundtrip [of sample_profile_bytes 5 fresh_store m1 sample_device_bytes ?m2]
      l v s fc ld sd sample_SetDeviceConfig
    by simp
  then show ?thesis using l v s ld sample_SetDeviceConfig by (simp add: d)
qed

section \<open>List correctness\<close>

text \<open>
  C7. After any run of successful SaveProfile and DeleteProfile operations that starts
  from an empty volume and has at least one operation (so that the profiles directory
  exists), whatever faults the medium showed during the run: a ListProfiles that meets no
  fault is answered with \<open>OK\<close>; the slots after the count byte have no duplicates and are
  exactly the occupied slots; and the count byte is the number of occupied slots modulo
  256.
\<close>

theorem ListProfiles_after_successful_ops:
  assumes run: "run_ops ops m0 = Some m" and empty: "tree m0 = []" and some: "ops \<noteq> []"
  shows "\<exists>slots. fst (Handle \<lparr>Cmd = CmdListProfiles, Payload = []\<rparr> (m\<lparr>faults := []\<rparr>))
                   = \<lparr>Status = StatusOK, RPayload = of_nat (length slots) # slots\<rparr>
           \<and> distinct slots
           \<and> set slots = {k. fst (ProfileExists k (m\<lparr>faults := []\<rparr>))}
           \<and> unat (of_nat (length slots) :: byte)
               = card {k. fst (ProfileExists k (m\<lparr>faults := []\<rparr>))} mod 256"
proof -
  have "store_inv (tree m0)" by (simp add: empty store_inv_def)
  then have inv: "store_inv (tree m) \<and> map_of (tree m) profilesDir = Some Dir"
    using run_ops_inv [OF run] some by simp
  obtain slots where s: "fst (Handle \<lparr>Cmd = CmdListProfiles, Payload = []\<rparr> (m\<lparr>faults := []\<rparr>))
                   = \<lparr>Status = StatusOK, RPayload = of_nat (length slots) # slots\<rparr>"
      "distinct slots" "set slots = {k. fst (ProfileExists k (m\<lparr>faults := []\<rparr>))}"
    using listing_of_inv [of "m\<lparr>faults := []\<rparr>" "[]"] inv by auto
  have "length slots = card (set slots)" using s(2) by (simp add: distinct_card)
  then have "unat (of_nat (length slots) :: byte)
             = card {k. fst (ProfileExists k (m\<lparr>faults := []\<rparr>))} mod 256"
    using s(3) by (simp add: unat_of_nat)
  then show ?thesis using s by blast
qed

lemma sample_run: "run_ops sample_ops fresh_store \<noteq> None"
  by code_simp

lemma sample_listing:
  "fst (Handle \<lparr>Cmd = CmdListProfiles, Payload = []\<rparr>
          ((the (run_ops sample_ops fresh_store))\<lparr>faults := []\<rparr>))
   = \<lparr>Status = StatusOK, RPayload = [1, 17]\<rparr>"
  by code_simp

theorem ListProfiles_after_successful_ops_witness:
  "run_ops sample_ops fresh_store \<noteq> None \<and> tree fresh_store = [] \<and> sample_ops \<noteq> []
   \<and> fst (Handle \<lparr>Cmd = CmdListProfiles, Payload = []\<rparr>
            ((the (run_ops sample_ops fresh_store))\<lparr>faults := []\<rparr>))
       = \<lparr>Status = StatusOK, RPayload = [1, 17]\<rparr>
   \<and> card {k. fst (ProfileExists k ((the (run_ops sample_ops fresh_store))\<lparr>faults := []\<rparr>))} mod 256
       = 1
   \<and> {k. fst (ProfileExists k ((the (run_ops sample_ops fresh_store))\<lparr>faults := []\<rparr>))} = {17}"
proof -
  let ?m = "the (run_ops sample_ops fresh_store)"
  have run: "run_ops sample_ops fresh_store = Some ?m" using sample_run by simp
  have e: "tree fresh_store = []" by (simp add: fresh_store_def)
  have n: "sample_ops \<noteq> []" by (simp add: sample_ops_def)
  from ListProfiles_after_successful_ops [OF run e n] obtain slots where
    s: "fst (Handle \<lparr>Cmd = CmdListProfiles, Payload = []\<rparr> (?m\<lparr>faults := []\<rparr>))
          = \<lparr>Status = StatusOK, RPayload = of_nat (length slots) # slots\<rparr>"
      "set slots = {k. fst (ProfileExists k (?m\<lparr>faults := []\<rparr>))}"
      "unat (of_nat (length slots) :: byte)
          = card {k. fst (ProfileExists k (?m\<lparr>faults := []\<rparr>))} mod 256"
    by blast
  from s(1) have "slots = [17]" by (simp add: sample_listing)
  then show ?thesis using s(2,3) sample_run e n sample_listing by simp
qed

lemma ListProfiles_fresh:
  "fst (Handle \<lparr>Cmd = CmdListProfiles, Payload = []\<rparr> fresh_store)
   = \<lparr>Status = StatusError, RPayload = []\<rparr>"
  by code_simp

text \<open>
  The claim as stated fails in two places. With all 256 slots occupied the count byte is 0,
  not the number of occupied slots, because the count is cut to one byte. And on a volume
  that was never written the profiles directory does not exist, \<open>os.IsNotExist\<close> does not
  recognise the error of LittleFS, and the response is \<open>Error\<close> with no payload.
\<close>

theorem ListProfiles_counterexample:
  "fst (Handle \<lparr>Cmd = CmdListProfiles, Payload = []\<rparr> fresh_store)
     = \<lparr>Status = StatusError, RPayload = []\<rparr>
   \<and> run_ops (fill_slots 256) fresh_store \<noteq> None
   \<and> Status (fst (Handle \<lparr>Cmd = CmdListProfiles, Payload = []\<rparr> full_store)) = StatusOK
   \<and> hd (RPayload (fst (Handle \<lparr>Cmd = CmdListProfiles, Payload = []\<rparr> full_store))) = 0
   \<and> distinct (tl (RPayload (fst (Handle \<lparr>Cmd = CmdListProfiles, Payload = []\<rparr> full_store))))
   \<and> length (tl (RPayload (fst (Handle \<lparr>Cmd = CmdListProfiles, Payload = []\<rparr> full_store)))) = 256"
proof -
  obtain m where m: "run_ops (fill_slots 256) fresh_store = Some m" "store_inv (tree m)"
      "\<forall>k. (map_of (tree m) (profilePath k) \<noteq> None) = (unat k < 256)"
    using fill_run [of fresh_store 256] by (auto simp: fresh_store_def)
  have fs: "full_store = m\<lparr>faults := []\<rparr>" by (simp add: full_store_def m(1))
  have all: "map_of (tree m) (profilePath k) \<noteq> None" for k
    using m(3) unsigned_less [of k] by simp
  then have "tree m \<noteq> []" by auto
  then have pd: "map_of (tree full_store) profilesDir = Some Dir"
    using m(2) by (simp add: fs store_inv_def)
  obtain slots where s: "fst (Handle \<lparr>Cmd = CmdListProfiles, Payload = []\<rparr> full_store)
                   = \<lparr>Status = StatusOK, RPayload = of_nat (length slots) # slots\<rparr>"
      "distinct slots" "set slots = {k. fst (ProfileExists k full_store)}"
    using listing_of_inv [of full_store "[]"] m(2) pd by (auto simp: fs)
  have "fst (ProfileExists k full_store)" for k
    using all [of k] by (simp add: ProfileExists_faultless fs map_of_eq_None_iff)
  then have "set slots = UNIV" using s(3) by auto
  then have "length slots = card (UNIV :: byte set)" using s(2) distinct_card by metis
  then have len: "length slots = 256" by (simp add: card_word)
  show ?thesis using ListProfiles_fresh m(1) s(1,2) len by simp
qed

end
